theory Spec2Isabelle
  imports
    Main
    "HOL-Library.Char_ord"
    "HOL-Library.List_Lexorder"
    "HOL-Library.Product_Lexorder"
begin

section \<open>JavaScript values at the HTTP boundary\<close>

text \<open>
  The request bodies of \<^verbatim>\<open>server.js\<close> are parsed JSON, and the handlers branch on
  JavaScript truthiness (\<^verbatim>\<open>!picks\<close>, \<^verbatim>\<open>pick.fighterId\<close>, \<^verbatim>\<open>row.winner_id\<close>) and
  convert with \<^verbatim>\<open>String(...)\<close> and template literals. The values are modelled as a
  datatype; \<open>Undefined\<close> stands for a missing property. Numbers are the integers
  (fractions, NaN and the exponent notation of very large numbers are outside the model).
\<close>

datatype jsval =
    Undefined
  | Null
  | Bool bool
  | Num int
  | Str string
  | Arr "jsval list"
  | Obj "(string \<times> jsval) list"

fun truthy :: "jsval \<Rightarrow> bool" where
  "truthy Undefined = False"
| "truthy Null = False"
| "truthy (Bool b) = b"
| "truthy (Num n) = (n \<noteq> 0)"
| "truthy (Str s) = (s \<noteq> [])"
| "truthy (Arr xs) = True"
| "truthy (Obj kvs) = True"

definition digit :: "nat \<Rightarrow> char" where
  "digit n = ''0123456789'' ! n"

fun dec :: "nat \<Rightarrow> string" where
  "dec n = (if n < 10 then [digit n] else dec (n div 10) @ [digit (n mod 10)])"

declare dec.simps [simp del]

definition show_int :: "int \<Rightarrow> string" where
  "show_int i = (if i < 0 then CHR ''-'' # dec (nat (- i)) else dec (nat i))"

fun join_comma :: "string list \<Rightarrow> string" where
  "join_comma [] = []"
| "join_comma [s] = s"
| "join_comma (s # t # ss) = s @ '','' @ join_comma (t # ss)"

text \<open>\<^verbatim>\<open>String(v)\<close>, which is also what a template literal \<^verbatim>\<open>${v}\<close> inserts.\<close>

fun js_String :: "jsval \<Rightarrow> string" where
  "js_String Undefined = ''undefined''"
| "js_String Null = ''null''"
| "js_String (Bool b) = (if b then ''true'' else ''false'')"
| "js_String (Num n) = show_int n"
| "js_String (Str s) = s"
| "js_String (Arr xs) =
     join_comma (map (\<lambda>x. if x = Undefined \<or> x = Null then [] else js_String x) xs)"
| "js_String (Obj kvs) = ''[object Object]''"

text \<open>\<^verbatim>\<open>a || b\<close>\<close>

definition js_or :: "jsval \<Rightarrow> jsval \<Rightarrow> jsval" where
  "js_or a b = (if truthy a then a else b)"

definition is_space :: "char \<Rightarrow> bool" where
  "is_space c = (c \<in> set [CHR '' '', CHR 0x09, CHR 0x0A, CHR 0x0B, CHR 0x0C, CHR 0x0D])"

text \<open>\<^verbatim>\<open>s.trim()\<close> on the ASCII white space.\<close>

definition trim :: "string \<Rightarrow> string" where
  "trim s = rev (dropWhile is_space (rev (dropWhile is_space s)))"

datatype js_exn = NotIterable | PropertyOfNullish

text \<open>
  \<^verbatim>\<open>v[k]\<close> for a key that no prototype defines: a TypeError on \<^verbatim>\<open>null\<close> and
  \<^verbatim>\<open>undefined\<close>, the own property of an object (the last binding of a repeated JSON
  key), \<^verbatim>\<open>undefined\<close> on everything else.
\<close>

fun get_prop :: "jsval \<Rightarrow> string \<Rightarrow> js_exn + jsval" where
  "get_prop Undefined k = Inl PropertyOfNullish"
| "get_prop Null k = Inl PropertyOfNullish"
| "get_prop (Obj kvs) k = Inr (case map_of (rev kvs) k of None \<Rightarrow> Undefined | Some v \<Rightarrow> v)"
| "get_prop v k = Inr Undefined"

text \<open>
  What \<^verbatim>\<open>for (const x of v)\<close> runs over: the elements of an array, the characters of
  a string; any other value is not iterable.
\<close>

fun js_iter :: "jsval \<Rightarrow> js_exn + jsval list" where
  "js_iter (Arr xs) = Inr xs"
| "js_iter (Str s) = Inr (map (\<lambda>c. Str [c]) s)"
| "js_iter v = Inl NotIterable"

section \<open>The relations of the database\<close>

text \<open>
  Identifiers are stored as their text (the schema mixes integer and UUID keys, and the
  handlers pass them as strings); SQL \<^verbatim>\<open>=\<close> on them is equality of the text. A nullable
  column is an \<open>option\<close>. Columns that the handlers only read through JavaScript
  (\<^verbatim>\<open>wins\<close>, \<^verbatim>\<open>division\<close>, \<^verbatim>\<open>method\<close>, \<^verbatim>\<open>finish_round\<close>) hold the value the driver
  returns for them, \<open>Undefined\<close> when the table has no such column.
\<close>

record user_row =
  u_UserID :: string
  u_Username :: string
  u_Email :: string
  u_PasswordHash :: string

record league_row =
  l_LeagueID :: string
  l_Name :: string
  l_OwnerID :: string
  l_ScoringRules :: "string option"
  l_LeagueCode :: string

record membership_row =
  m_UserID :: string
  m_LeagueID :: string
  m_Role :: string

record event_row =
  e_event_id :: string
  e_event_name :: jsval
  e_date :: int
  e_location :: jsval

record fighter_row =
  f_fighter_id :: string
  f_name :: string
  f_wins :: jsval
  f_losses :: jsval
  f_draws :: jsval

record fight_row =
  ft_fight_id :: string
  ft_event_id :: string
  ft_red_fighter_id :: string
  ft_blue_fighter_id :: string
  ft_winner_id :: "string option"
  ft_method :: jsval
  ft_finish_round :: jsval
  ft_division :: jsval

record pick_row =
  p_PickID :: nat
  p_UserID :: string
  p_LeagueID :: string
  p_EventID :: string
  p_FighterID :: string
  p_PointsEarned :: int

record db =
  users :: "user_row list"
  leagues :: "league_row list"
  memberships :: "membership_row list"
  events :: "event_row list"
  fighters :: "fighter_row list"
  fights :: "fight_row list"
  picks :: "pick_row list"
  next_user_id :: nat
  next_league_id :: nat
  next_pick_id :: nat

text \<open>
  A response is the success payload or the HTTP status with the \<^verbatim>\<open>error\<close> text; for a
  caught JavaScript exception the text is the engine's message, kept as the exception.
\<close>

datatype err_body = Msg string | Thrown js_exn

datatype 'a response = Success 'a | Failure nat err_body

text \<open>An error raised by the database driver or a library: its \<^verbatim>\<open>code\<close> and \<^verbatim>\<open>message\<close>.\<close>

datatype js_error = JsError (err_code: "string option") (err_message: string)

text \<open>
  What the repository's sources do not contain, as parameters: the driver's conversion of
  a bound parameter to the stored text (\<open>bind\<close>), \<^verbatim>\<open>bcrypt.hash\<close>, the random league
  code and the database's verdict on an inserted row (its constraints). Connections and the
  other statements are taken to succeed.
\<close>

record env =
  bind :: "jsval \<Rightarrow> string"
  bcrypt_hash :: "jsval \<Rightarrow> js_error + string"
  random_code :: string
  user_rejected :: "db \<Rightarrow> user_row \<Rightarrow> js_error option"
  league_rejected :: "db \<Rightarrow> league_row \<Rightarrow> js_error option"
  membership_rejected :: "db \<Rightarrow> membership_row \<Rightarrow> js_error option"
  pick_rejected :: "db \<Rightarrow> pick_row \<Rightarrow> bool"

section \<open>POST /api/save-picks\<close>

record save_picks_body =
  sp_userId :: jsval
  sp_leagueId :: jsval
  sp_eventId :: jsval
  sp_picks :: jsval

definition in_scope :: "string \<Rightarrow> string \<Rightarrow> string \<Rightarrow> pick_row \<Rightarrow> bool" where
  "in_scope u l e p = (p_UserID p = u \<and> p_LeagueID p = l \<and> p_EventID p = e)"

text \<open>\<^verbatim>\<open>DELETE FROM Pick WHERE UserID = ? AND LeagueID = ? AND EventID = ?\<close>\<close>

definition delete_picks :: "string \<Rightarrow> string \<Rightarrow> string \<Rightarrow> db \<Rightarrow> db" where
  "delete_picks u l e d = d\<lparr>picks := filter (\<lambda>p. \<not> in_scope u l e p) (picks d)\<rparr>"

definition new_pick :: "db \<Rightarrow> string \<Rightarrow> string \<Rightarrow> string \<Rightarrow> string \<Rightarrow> pick_row" where
  "new_pick d u l e f =
     \<lparr>p_PickID = next_pick_id d, p_UserID = u, p_LeagueID = l, p_EventID = e,
      p_FighterID = f, p_PointsEarned = 0\<rparr>"

text \<open>
  \<^verbatim>\<open>INSERT INTO Pick (UserID, LeagueID, EventID, FighterID, PointsEarned) VALUES (?, ?, ?, ?, 0)\<close>.
  Whether the database refuses a row (a constraint of the schema, which is not part of
  the repository's sources) is the parameter \<open>rejects\<close>; the handler catches that
  failure per row.
\<close>

definition insert_pick ::
  "(db \<Rightarrow> pick_row \<Rightarrow> bool) \<Rightarrow> db \<Rightarrow> string \<Rightarrow> string \<Rightarrow> string \<Rightarrow> string \<Rightarrow> db option" where
  "insert_pick rejects d u l e f =
     (let row = new_pick d u l e f in
      if rejects d row then None
      else Some (d\<lparr>picks := picks d @ [row], next_pick_id := Suc (next_pick_id d)\<rparr>))"

text \<open>
  The loop \<^verbatim>\<open>for (const pick of picks)\<close> with its counters \<^verbatim>\<open>savedCount\<close> and
  \<^verbatim>\<open>errorCount\<close>. Reading \<^verbatim>\<open>pick.fighterId\<close> is outside the inner \<^verbatim>\<open>try\<close>, so a
  TypeError there leaves the loop; the rows written so far stay.
\<close>

fun save_loop ::
  "(db \<Rightarrow> pick_row \<Rightarrow> bool) \<Rightarrow> string \<Rightarrow> string \<Rightarrow> string \<Rightarrow> jsval list \<Rightarrow>
   db \<Rightarrow> nat \<Rightarrow> nat \<Rightarrow> js_exn option \<times> db \<times> nat \<times> nat" where
  "save_loop rejects u l e [] d savedCount errorCount = (None, d, savedCount, errorCount)"
| "save_loop rejects u l e (pick # rest) d savedCount errorCount =
     (case get_prop pick ''fighterId'' of
        Inl ex \<Rightarrow> (Some ex, d, savedCount, errorCount)
      | Inr fighterId \<Rightarrow>
          if truthy fighterId then
            (case insert_pick rejects d u l e (trim (js_String fighterId)) of
               Some d' \<Rightarrow> save_loop rejects u l e rest d' (Suc savedCount) errorCount
             | None \<Rightarrow> save_loop rejects u l e rest d savedCount (Suc errorCount))
          else save_loop rejects u l e rest d savedCount errorCount)"

definition saved_message :: "nat \<Rightarrow> nat \<Rightarrow> string" where
  "saved_message savedCount errorCount =
     ''Saved '' @ dec savedCount @ '' picks'' @
     (if errorCount > 0 then '' ('' @ dec errorCount @ '' failed)'' else [])"

definition save_picks ::
  "(db \<Rightarrow> pick_row \<Rightarrow> bool) \<Rightarrow> db \<Rightarrow> save_picks_body \<Rightarrow> (string \<times> nat) response \<times> db" where
  "save_picks rejects d body =
     (if \<not> truthy (sp_userId body) \<or> \<not> truthy (sp_leagueId body) \<or>
         \<not> truthy (sp_eventId body) \<or> \<not> truthy (sp_picks body)
      then (Failure 400 (Msg ''Missing required data''), d)
      else
        let strUserId = js_String (sp_userId body);
            strLeagueId = js_String (sp_leagueId body);
            strEventId = js_String (sp_eventId body);
            d1 = delete_picks strUserId strLeagueId strEventId d
        in case js_iter (sp_picks body) of
             Inl ex \<Rightarrow> (Failure 500 (Thrown ex), d1)
           | Inr items \<Rightarrow>
               (case save_loop rejects strUserId strLeagueId strEventId items d1 0 0 of
                  (Some ex, d2, savedCount, errorCount) \<Rightarrow> (Failure 500 (Thrown ex), d2)
                | (None, d2, savedCount, errorCount) \<Rightarrow>
                    if savedCount = 0 \<and> errorCount > 0
                    then (Failure 500 (Msg ''All picks failed to save. Check server logs.''), d2)
                    else (Success (saved_message savedCount errorCount, savedCount), d2)))"

section \<open>POST /api/register\<close>

record register_body =
  rg_username :: jsval
  rg_email :: jsval
  rg_password :: jsval

text \<open>\<^verbatim>\<open>s.includes(t)\<close>\<close>

fun str_includes :: "string \<Rightarrow> string \<Rightarrow> bool" where
  "str_includes [] t = (t = [])"
| "str_includes (c # s) t = (take (length t) (c # s) = t \<or> str_includes s t)"

definition register_failure :: "js_error \<Rightarrow> unit response" where
  "register_failure err =
     (if err_code err = Some ''ER_DUP_ENTRY''
      then Failure 400 (Msg ''Username or email already exists'')
      else if err_code err = Some ''ER_BAD_NULL_ERROR'' \<or>
              str_includes (err_message err) (''doesn'' @ [CHR 0x27] @ ''t have a default value'') \<or>
              str_includes (err_message err) ''cannot be null''
      then Failure 500 (Msg (''Database configuration error: UserID column may not have AUTO_INCREMENT set. '' @
                             ''Please run: ALTER TABLE user MODIFY UserID INT AUTO_INCREMENT;''))
      else Failure 500 (Msg (err_message err)))"

definition register :: "env \<Rightarrow> db \<Rightarrow> register_body \<Rightarrow> (nat \<times> jsval) response \<times> db" where
  "register env d body =
     (if \<not> truthy (rg_username body) \<or> \<not> truthy (rg_email body) \<or> \<not> truthy (rg_password body)
      then (Failure 400 (Msg ''Username, email, and password are required''), d)
      else case bcrypt_hash env (rg_password body) of
             Inl err \<Rightarrow> (case register_failure err of Failure c b \<Rightarrow> (Failure c b, d))
           | Inr passwordHash \<Rightarrow>
               (let row = \<lparr>u_UserID = dec (next_user_id d), u_Username = bind env (rg_username body),
                           u_Email = bind env (rg_email body), u_PasswordHash = passwordHash\<rparr>
                in (case user_rejected env d row of
                      Some err \<Rightarrow> (case register_failure err of Failure c b \<Rightarrow> (Failure c b, d))
                    | None \<Rightarrow>
                        (Success (next_user_id d, rg_username body),
                         d\<lparr>users := users d @ [row], next_user_id := Suc (next_user_id d)\<rparr>))))"

section \<open>POST /api/league/create\<close>

record create_league_body =
  cl_name :: jsval
  cl_ownerID :: jsval
  cl_scoringRules :: jsval
  cl_leagueCode :: jsval

definition create_league_failure :: "js_error \<Rightarrow> err_body response" where
  "create_league_failure err =
     (if err_code err = Some ''ER_NO_REFERENCED_ROW_2''
      then Failure 400 (Msg ''OwnerID does not exist'')
      else if err_code err = Some ''ER_DUP_ENTRY''
      then Failure 400 (Msg ''League code already exists'')
      else Failure 500 (Msg (err_message err)))"

text \<open>
  The league row gets the next AUTO_INCREMENT key, \<^verbatim>\<open>result.insertId\<close>; the owner's
  membership is a second statement, with no transaction around the two.
\<close>

definition create_league ::
  "env \<Rightarrow> db \<Rightarrow> create_league_body \<Rightarrow> (nat \<times> jsval) response \<times> db" where
  "create_league env d body =
     (if \<not> truthy (cl_name body) \<or> \<not> truthy (cl_ownerID body)
      then (Failure 400 (Msg ''League name and OwnerID are required''), d)
      else
        let finalLeagueCode = js_or (cl_leagueCode body) (Str (random_code env));
            insertId = next_league_id d;
            row = \<lparr>l_LeagueID = dec insertId, l_Name = bind env (cl_name body),
                   l_OwnerID = bind env (cl_ownerID body),
                   l_ScoringRules = (if truthy (cl_scoringRules body)
                                     then Some (bind env (cl_scoringRules body)) else None),
                   l_LeagueCode = bind env finalLeagueCode\<rparr>
        in case league_rejected env d row of
             Some err \<Rightarrow> (case create_league_failure err of Failure c b \<Rightarrow> (Failure c b, d))
           | None \<Rightarrow>
               (let d1 = d\<lparr>leagues := leagues d @ [row], next_league_id := Suc insertId\<rparr>;
                    m = \<lparr>m_UserID = bind env (cl_ownerID body), m_LeagueID = dec insertId,
                         m_Role = ''Owner''\<rparr>
                in (case membership_rejected env d1 m of
                      Some err \<Rightarrow>
                        (case create_league_failure err of Failure c b \<Rightarrow> (Failure c b, d1))
                    | None \<Rightarrow>
                        (Success (insertId, finalLeagueCode),
                         d1\<lparr>memberships := memberships d1 @ [m]\<rparr>))))"

section \<open>DELETE /api/league/:leagueId\<close>

text \<open>
  The route parameter is a string. The two counts come first; the \<^verbatim>\<open>DELETE\<close> reports
  the number of rows it removed.
\<close>

definition delete_league :: "db \<Rightarrow> string \<Rightarrow> string response \<times> db" where
  "delete_league d leagueId =
     (if leagueId = [] then (Failure 400 (Msg ''League ID is required''), d)
      else if length (filter (\<lambda>m. m_LeagueID m = leagueId) (memberships d)) > 0
      then (Failure 400 (Msg ''Cannot delete league because it has members. Please remove all members first.''), d)
      else if length (filter (\<lambda>p. p_LeagueID p = leagueId) (picks d)) > 0
      then (Failure 400 (Msg ''Cannot delete league because it has picks. Please remove all picks first.''), d)
      else
        let affectedRows = length (filter (\<lambda>l. l_LeagueID l = leagueId) (leagues d));
            d1 = d\<lparr>leagues := filter (\<lambda>l. l_LeagueID l \<noteq> leagueId) (leagues d)\<rparr>
        in if affectedRows = 0 then (Failure 404 (Msg ''League not found''), d1)
           else (Success ''League deleted successfully'', d1))"

section \<open>POST /api/join-league\<close>

record join_league_body =
  jl_leagueCode :: jsval
  jl_userId :: jsval

definition join_league ::
  "env \<Rightarrow> db \<Rightarrow> join_league_body \<Rightarrow> (string \<times> string \<times> string) response \<times> db" where
  "join_league env d body =
     (if \<not> truthy (jl_leagueCode body) \<or> \<not> truthy (jl_userId body)
      then (Failure 400 (Msg ''League code and user ID are required''), d)
      else case filter (\<lambda>l. l_LeagueCode l = bind env (jl_leagueCode body)) (leagues d) of
             [] \<Rightarrow> (Failure 404 (Msg ''Invalid league code''), d)
           | league # others \<Rightarrow>
               (let existing = filter (\<lambda>m. m_UserID m = bind env (jl_userId body) \<and>
                                           m_LeagueID m = l_LeagueID league) (memberships d)
                in if length existing > 0
                   then (Failure 400 (Msg ''You are already a member of this league''), d)
                   else
                     (let m = \<lparr>m_UserID = bind env (jl_userId body), m_LeagueID = l_LeagueID league,
                               m_Role = ''Member''\<rparr>
                      in (case membership_rejected env d m of
                            Some err \<Rightarrow> (Failure 500 (Msg (err_message err)), d)
                          | None \<Rightarrow>
                              (Success (''Successfully joined league: '' @ l_Name league,
                                        l_LeagueID league, l_Name league),
                               d\<lparr>memberships := memberships d @ [m]\<rparr>)))))"

section \<open>GET /api/leaderboard/:leagueId\<close>

record leaderboard_row =
  lb_UserID :: string
  lb_Username :: string
  lb_Email :: string
  lb_TotalPoints :: int

text \<open>
  \<^verbatim>\<open>FROM user u INNER JOIN membership m ON u.UserID = m.UserID
  LEFT JOIN pick p ON u.UserID = p.UserID AND p.LeagueID = ? WHERE m.LeagueID = ?\<close>:
  a user-membership pair without a matching pick keeps one row, whose pick is NULL.
\<close>

definition leaderboard_join ::
  "string \<Rightarrow> db \<Rightarrow> (user_row \<times> membership_row \<times> pick_row option) list" where
  "leaderboard_join leagueId d =
     [(u, m, p).
        u \<leftarrow> users d,
        m \<leftarrow> memberships d, u_UserID u = m_UserID m,
        p \<leftarrow> (case filter (\<lambda>p. u_UserID u = p_UserID p \<and> p_LeagueID p = leagueId) (picks d) of
               [] \<Rightarrow> [None]
             | ps \<Rightarrow> map Some ps),
        m_LeagueID m = leagueId]"

definition group_key :: "user_row \<Rightarrow> string \<times> string \<times> string" where
  "group_key u = (u_UserID u, u_Username u, u_Email u)"

text \<open>
  \<^verbatim>\<open>GROUP BY u.UserID, u.Username, u.Email\<close> with
  \<^verbatim>\<open>COALESCE(SUM(p.PointsEarned), 0)\<close>: the sum runs over the rows of the group whose
  pick is not NULL.
\<close>

definition leaderboard_groups :: "string \<Rightarrow> db \<Rightarrow> leaderboard_row list" where
  "leaderboard_groups leagueId d =
     (let rows = leaderboard_join leagueId d
      in map (\<lambda>k. \<lparr>lb_UserID = fst k, lb_Username = fst (snd k), lb_Email = snd (snd k),
                    lb_TotalPoints =
                      sum_list [p_PointsEarned p. (u, m, Some p) \<leftarrow> rows, group_key u = k]\<rparr>)
             (remdups (map (\<lambda>(u, m, p). group_key u) rows)))"

text \<open>\<^verbatim>\<open>ORDER BY TotalPoints DESC, u.Username ASC\<close>, names compared as stored.\<close>

definition leaderboard :: "db \<Rightarrow> string \<Rightarrow> leaderboard_row list response" where
  "leaderboard d leagueId =
     (if leagueId = [] then Failure 400 (Msg ''League ID is required'')
      else Success (sort_key (\<lambda>r. (- lb_TotalPoints r, lb_Username r))
                             (leaderboard_groups leagueId d)))"

section \<open>GET /api/fighter/history\<close>

record history_row =
  h_EventName :: jsval
  h_EventDate :: int
  h_Location :: jsval
  h_Opponent :: string
  h_Result :: jsval
  h_Method :: jsval
  h_Round :: jsval

record history_payload =
  hp_data :: "history_row list"
  hp_message :: "string option"
  hp_fighters :: "(string \<times> string) list option"

text \<open>
  The second query: \<^verbatim>\<open>fight f JOIN event e JOIN fighter fa JOIN fighter fb\<close> on the
  event and on the red and the blue corner, restricted to the fights with a corner in
  \<^verbatim>\<open>fighterIds\<close>, \<^verbatim>\<open>ORDER BY e.date DESC\<close>.
\<close>

definition history_join ::
  "string list \<Rightarrow> db \<Rightarrow> (fight_row \<times> event_row \<times> fighter_row \<times> fighter_row) list" where
  "history_join fighterIds d =
     [(f, e, fa, fb).
        f \<leftarrow> fights d,
        e \<leftarrow> events d, ft_event_id f = e_event_id e,
        fa \<leftarrow> fighters d, ft_red_fighter_id f = f_fighter_id fa,
        fb \<leftarrow> fighters d, ft_blue_fighter_id f = f_fighter_id fb,
        ft_red_fighter_id f \<in> set fighterIds \<or> ft_blue_fighter_id f \<in> set fighterIds]"

definition history_query ::
  "string list \<Rightarrow> db \<Rightarrow> (fight_row \<times> event_row \<times> fighter_row \<times> fighter_row) list" where
  "history_query fighterIds d =
     sort_key (\<lambda>(f, e, fa, fb). - e_date e) (history_join fighterIds d)"

text \<open>\<^verbatim>\<open>if (fight.winner_id)\<close>: a NULL and an empty text are falsy.\<close>

definition has_winner :: "fight_row \<Rightarrow> bool" where
  "has_winner f = (case ft_winner_id f of None \<Rightarrow> False | Some w \<Rightarrow> w \<noteq> [])"

text \<open>The callback of \<^verbatim>\<open>results.map\<close>.\<close>

definition process_fight ::
  "string list \<Rightarrow> fight_row \<times> event_row \<times> fighter_row \<times> fighter_row \<Rightarrow> history_row" where
  "process_fight fighterIds j =
     (case j of (fight, e, fa, fb) \<Rightarrow>
        let isFighterA = ft_red_fighter_id fight \<in> set fighterIds;
            opponent = (if isFighterA then f_name fb else f_name fa);
            result =
              (if has_winner fight then
                 (let myId = (if isFighterA then ft_red_fighter_id fight
                              else ft_blue_fighter_id fight)
                  in if ft_winner_id fight = Some myId then Str ''Win''
                     else if has_winner fight then Str ''Loss''
                     else Str ''Pending'')
               else if ft_method fight = Str ''Draw'' \<or> ft_method fight = Str ''No Contest''
               then ft_method fight
               else Str ''Pending'')
        in \<lparr>h_EventName = e_event_name e, h_EventDate = e_date e, h_Location = e_location e,
            h_Opponent = opponent, h_Result = result, h_Method = ft_method fight,
            h_Round = ft_finish_round fight\<rparr>)"

text \<open>
  The query parameter \<^verbatim>\<open>name\<close> is \<open>Undefined\<close> when absent. The first query is
  \<^verbatim>\<open>SELECT fighter_id, name FROM fighter WHERE name LIKE ?\<close> with the pattern
  \<^verbatim>\<open>`%${fighterName}%`\<close>; the database's \<^verbatim>\<open>LIKE\<close> is the parameter \<open>like\<close>.
\<close>

definition matched_fighters :: "(string \<Rightarrow> string \<Rightarrow> bool) \<Rightarrow> db \<Rightarrow> jsval \<Rightarrow> fighter_row list" where
  "matched_fighters like d fighterName =
     filter (\<lambda>f. like (''%'' @ js_String fighterName @ ''%'') (f_name f)) (fighters d)"

definition fighter_history ::
  "(string \<Rightarrow> string \<Rightarrow> bool) \<Rightarrow> db \<Rightarrow> jsval \<Rightarrow> history_payload response" where
  "fighter_history like d fighterName =
     (if \<not> truthy fighterName then Failure 400 (Msg ''Fighter name is required'')
      else
        let found = matched_fighters like d fighterName
        in if length found = 0
           then Success \<lparr>hp_data = [], hp_message = Some ''No fighters found'', hp_fighters = None\<rparr>
           else
             let fighterIds = map f_fighter_id found;
                 results = history_query fighterIds d;
                 processedResults = map (process_fight fighterIds) results
             in Success \<lparr>hp_data = processedResults, hp_message = None,
                          hp_fighters = Some (map (\<lambda>f. (f_fighter_id f, f_name f)) found)\<rparr>)"

section \<open>GET /api/event/:eventId/fights\<close>

record fight_view =
  v_FightID :: string
  v_FighterA_ID :: string
  v_FighterB_ID :: string
  v_FighterAName :: string
  v_FighterARecord :: string
  v_FighterBName :: string
  v_FighterBRecord :: string
  v_WeightClass :: jsval
  v_Result :: string
  v_Method :: jsval
  v_Round :: jsval

text \<open>
  \<^verbatim>\<open>fighterMap\<close>, filled by \<^verbatim>\<open>allFighters.forEach\<close>: a later row with the same id
  overwrites an earlier one. (Ids that name a property of \<^verbatim>\<open>Object.prototype\<close> are
  outside the model.)
\<close>

definition fighter_record :: "fighter_row \<Rightarrow> string" where
  "fighter_record f =
     (if f_wins f \<noteq> Undefined
      then js_String (f_wins f) @ ''-'' @ js_String (f_losses f) @ ''-'' @ js_String (f_draws f)
      else ''N/A'')"

fun fighter_map :: "fighter_row list \<Rightarrow> (string \<rightharpoonup> string \<times> string) \<Rightarrow> (string \<rightharpoonup> string \<times> string)" where
  "fighter_map [] fighterMap = fighterMap"
| "fighter_map (f # fs) fighterMap =
     fighter_map fs (fighterMap(f_fighter_id f \<mapsto> (f_name f, fighter_record f)))"

text \<open>The callback of \<^verbatim>\<open>fights.map\<close>; \<^verbatim>\<open>fighterMap[id] || { name: 'Unknown', record: '' }\<close>.\<close>

definition map_fight :: "(string \<rightharpoonup> string \<times> string) \<Rightarrow> fight_row \<Rightarrow> fight_view" where
  "map_fight fighterMap row =
     (let idA = ft_red_fighter_id row;
          idB = ft_blue_fighter_id row;
          fighterA = (case fighterMap idA of Some x \<Rightarrow> x | None \<Rightarrow> (''Unknown'', []));
          fighterB = (case fighterMap idB of Some x \<Rightarrow> x | None \<Rightarrow> (''Unknown'', []));
          resultText =
            (if has_winner row then
               (if ft_winner_id row = Some idA then fst fighterA @ '' Win''
                else if ft_winner_id row = Some idB then fst fighterB @ '' Win''
                else ''Draw/No Contest'')
             else ''Pending'')
      in \<lparr>v_FightID = ft_fight_id row, v_FighterA_ID = idA, v_FighterB_ID = idB,
          v_FighterAName = fst fighterA, v_FighterARecord = snd fighterA,
          v_FighterBName = fst fighterB, v_FighterBRecord = snd fighterB,
          v_WeightClass = js_or (ft_division row) (Str ''Catchweight''),
          v_Result = resultText,
          v_Method = js_or (ft_method row) (Str ''-''),
          v_Round = js_or (ft_finish_round row) (Str ''-'')\<rparr>)"

definition event_fights :: "db \<Rightarrow> string \<Rightarrow> fight_view list response" where
  "event_fights d eventId =
     (let rows = filter (\<lambda>f. ft_event_id f = eventId) (fights d);
          allFighters = fighters d
      in if length rows = 0 then Success []
         else Success (map (map_fight (fighter_map allFighters Map.empty)) rows))"

section \<open>The requests that write\<close>

datatype request =
    Register register_body
  | CreateLeague create_league_body
  | DeleteLeague string
  | JoinLeague join_league_body
  | SavePicks save_picks_body

fun exec :: "env \<Rightarrow> request \<Rightarrow> db \<Rightarrow> db" where
  "exec env (Register body) d = snd (register env d body)"
| "exec env (CreateLeague body) d = snd (create_league env d body)"
| "exec env (DeleteLeague leagueId) d = snd (delete_league d leagueId)"
| "exec env (JoinLeague body) d = snd (join_league env d body)"
| "exec env (SavePicks body) d = snd (save_picks (pick_rejected env) d body)"

section \<open>Vocabulary of the properties\<close>

text \<open>
  The fighter a selection asks for: the trimmed text of a truthy \<^verbatim>\<open>fighterId\<close>, none
  when the property is missing or falsy.
\<close>

definition chosen :: "jsval \<Rightarrow> string option" where
  "chosen sel =
     (case get_prop sel ''fighterId'' of
        Inr v \<Rightarrow> if truthy v then Some (trim (js_String v)) else None
      | Inl ex \<Rightarrow> None)"

definition nullish :: "jsval \<Rightarrow> bool" where
  "nullish v = (v = Null \<or> v = Undefined)"

section \<open>Example data\<close>

definition never_rejects :: "db \<Rightarrow> pick_row \<Rightarrow> bool" where
  "never_rejects d row = False"

definition rejects_bad :: "db \<Rightarrow> pick_row \<Rightarrow> bool" where
  "rejects_bad d row = (p_FighterID row = ''bad'')"

definition ex_db :: db where
  "ex_db =
     \<lparr>users =
        [\<lparr>u_UserID = ''1'', u_Username = ''alice'', u_Email = ''a@x'', u_PasswordHash = ''h1''\<rparr>,
         \<lparr>u_UserID = ''2'', u_Username = ''bob'', u_Email = ''b@x'', u_PasswordHash = ''h2''\<rparr>,
         \<lparr>u_UserID = ''3'', u_Username = ''carol'', u_Email = ''c@x'', u_PasswordHash = ''h3''\<rparr>],
      leagues =
        [\<lparr>l_LeagueID = ''1'', l_Name = ''Octagon'', l_OwnerID = ''1'', l_ScoringRules = None,
          l_LeagueCode = ''CODE1''\<rparr>,
         \<lparr>l_LeagueID = ''2'', l_Name = ''Cage'', l_OwnerID = ''2'', l_ScoringRules = None,
          l_LeagueCode = ''CODE2''\<rparr>],
      memberships =
        [\<lparr>m_UserID = ''1'', m_LeagueID = ''1'', m_Role = ''Owner''\<rparr>,
         \<lparr>m_UserID = ''2'', m_LeagueID = ''1'', m_Role = ''Member''\<rparr>,
         \<lparr>m_UserID = ''2'', m_LeagueID = ''2'', m_Role = ''Owner''\<rparr>,
         \<lparr>m_UserID = ''3'', m_LeagueID = ''1'', m_Role = ''Member''\<rparr>],
      events =
        [\<lparr>e_event_id = ''e1'', e_event_name = Str ''UFC 300'', e_date = 20, e_location = Str ''Las Vegas''\<rparr>,
         \<lparr>e_event_id = ''e2'', e_event_name = Str ''UFC 200'', e_date = 10, e_location = Str ''Rio''\<rparr>],
      fighters =
        [\<lparr>f_fighter_id = ''fa'', f_name = ''Anderson Silva'', f_wins = Num 34, f_losses = Num 11, f_draws = Num 0\<rparr>,
         \<lparr>f_fighter_id = ''fb'', f_name = ''Erick Silva'', f_wins = Num 20, f_losses = Num 9, f_draws = Num 0\<rparr>,
         \<lparr>f_fighter_id = ''fc'', f_name = ''Jon Jones'', f_wins = Num 27, f_losses = Num 1, f_draws = Num 0\<rparr>,
         \<lparr>f_fighter_id = ''fd'', f_name = ''Max Holloway'', f_wins = Num 26, f_losses = Num 8, f_draws = Num 0\<rparr>],
      fights =
        [\<lparr>ft_fight_id = ''x1'', ft_event_id = ''e1'', ft_red_fighter_id = ''fa'', ft_blue_fighter_id = ''fb'',
          ft_winner_id = Some ''fb'', ft_method = Str ''KO'', ft_finish_round = Num 2,
          ft_division = Str ''Middleweight''\<rparr>,
         \<lparr>ft_fight_id = ''x2'', ft_event_id = ''e2'', ft_red_fighter_id = ''fc'', ft_blue_fighter_id = ''fa'',
          ft_winner_id = Some ''fc'', ft_method = Str ''Decision'', ft_finish_round = Num 3,
          ft_division = Str ''Light Heavyweight''\<rparr>,
         \<lparr>ft_fight_id = ''x3'', ft_event_id = ''e1'', ft_red_fighter_id = ''fc'', ft_blue_fighter_id = ''zz'',
          ft_winner_id = None, ft_method = Null, ft_finish_round = Null, ft_division = Null\<rparr>],
      picks =
        [\<lparr>p_PickID = 1, p_UserID = ''1'', p_LeagueID = ''1'', p_EventID = ''e1'', p_FighterID = ''fa'',
          p_PointsEarned = 5\<rparr>,
         \<lparr>p_PickID = 2, p_UserID = ''2'', p_LeagueID = ''1'', p_EventID = ''e1'', p_FighterID = ''fb'',
          p_PointsEarned = 3\<rparr>,
         \<lparr>p_PickID = 3, p_UserID = ''1'', p_LeagueID = ''1'', p_EventID = ''e2'', p_FighterID = ''fc'',
          p_PointsEarned = 2\<rparr>,
         \<lparr>p_PickID = 4, p_UserID = ''2'', p_LeagueID = ''2'', p_EventID = ''e1'', p_FighterID = ''fa'',
          p_PointsEarned = 7\<rparr>],
      next_user_id = 4, next_league_id = 3, next_pick_id = 5\<rparr>"

definition ex_body :: "jsval \<Rightarrow> save_picks_body" where
  "ex_body selections =
     \<lparr>sp_userId = Num 1, sp_leagueId = Str ''1'', sp_eventId = Str ''e1'', sp_picks = selections\<rparr>"


definition ex_selections_bad :: "jsval list" where
  "ex_selections_bad =
     [Obj [(''fightId'', Str ''x1''), (''fighterId'', Str ''bad'')],
      Obj [(''fightId'', Str ''x3''), (''fighterId'', Str ''fc'')]]"

definition ex_selections_blank :: "jsval list" where
  "ex_selections_blank =
     [Obj [(''fightId'', Str ''x1'')], Obj [(''fightId'', Str ''x3''), (''fighterId'', Null)]]"

definition ex_kept_picks :: "pick_row list" where
  "ex_kept_picks =
        [\<lparr>p_PickID = 2, p_UserID = ''2'', p_LeagueID = ''1'', p_EventID = ''e1'', p_FighterID = ''fb'',
          p_PointsEarned = 3\<rparr>,
         \<lparr>p_PickID = 3, p_UserID = ''1'', p_LeagueID = ''1'', p_EventID = ''e2'', p_FighterID = ''fc'',
          p_PointsEarned = 2\<rparr>,
         \<lparr>p_PickID = 4, p_UserID = ''2'', p_LeagueID = ''2'', p_EventID = ''e1'', p_FighterID = ''fa'',
          p_PointsEarned = 7\<rparr>]"

definition ex_pick :: "nat \<Rightarrow> string \<Rightarrow> pick_row" where
  "ex_pick n f =
     \<lparr>p_PickID = n, p_UserID = ''1'', p_LeagueID = ''1'', p_EventID = ''e1'', p_FighterID = f,
      p_PointsEarned = 0\<rparr>"

definition ex_like :: "string \<Rightarrow> string \<Rightarrow> bool" where
  "ex_like pattern s = str_includes s (filter (\<lambda>c. c \<noteq> CHR ''%'') pattern)"



text \<open>
  The outcome as the specification words it, for the fighter \<open>me\<close>: a win when the
  recorded winner is \<open>me\<close>, a loss when another winner is recorded, the method when no
  winner is recorded and the method is "Draw" or "No Contest", pending otherwise.
\<close>

definition claimed_result :: "string \<Rightarrow> fight_row \<Rightarrow> jsval" where
  "claimed_result me ft =
     (if has_winner ft \<and> ft_winner_id ft = Some me then Str ''Win''
      else if has_winner ft then Str ''Loss''
      else if ft_method ft = Str ''Draw'' \<or> ft_method ft = Str ''No Contest'' then ft_method ft
      else Str ''Pending'')"

definition ex_fight_x1 :: fight_row where
  "ex_fight_x1 =
     \<lparr>ft_fight_id = ''x1'', ft_event_id = ''e1'', ft_red_fighter_id = ''fa'', ft_blue_fighter_id = ''fb'',
      ft_winner_id = Some ''fb'', ft_method = Str ''KO'', ft_finish_round = Num 2,
      ft_division = Str ''Middleweight''\<rparr>"

definition ex_history_silva :: "history_row list" where
  "ex_history_silva =
     [\<lparr>h_EventName = Str ''UFC 300'', h_EventDate = 20, h_Location = Str ''Las Vegas'',
       h_Opponent = ''Erick Silva'', h_Result = Str ''Loss'', h_Method = Str ''KO'', h_Round = Num 2\<rparr>,
      \<lparr>h_EventName = Str ''UFC 200'', h_EventDate = 10, h_Location = Str ''Rio'',
       h_Opponent = ''Jon Jones'', h_Result = Str ''Loss'', h_Method = Str ''Decision'',
       h_Round = Num 3\<rparr>]"

definition ex_views :: "fight_view list" where
  "ex_views =
     [\<lparr>v_FightID = ''x1'', v_FighterA_ID = ''fa'', v_FighterB_ID = ''fb'',
       v_FighterAName = ''Anderson Silva'', v_FighterARecord = ''34-11-0'',
       v_FighterBName = ''Erick Silva'', v_FighterBRecord = ''20-9-0'',
       v_WeightClass = Str ''Middleweight'', v_Result = ''Erick Silva Win'',
       v_Method = Str ''KO'', v_Round = Num 2\<rparr>,
      \<lparr>v_FightID = ''x3'', v_FighterA_ID = ''fc'', v_FighterB_ID = ''zz'',
       v_FighterAName = ''Jon Jones'', v_FighterARecord = ''27-1-0'',
       v_FighterBName = ''Unknown'', v_FighterBRecord = [],
       v_WeightClass = Str ''Catchweight'', v_Result = ''Pending'',
       v_Method = Str ''-'', v_Round = Str ''-''\<rparr>]"

text \<open>
  A sequence of writing requests, each with the environment it meets.
\<close>

fun run :: "(env \<times> request) list \<Rightarrow> db \<Rightarrow> db" where
  "run [] d = d"
| "run ((env, rq) # rest) d = run rest (exec env rq d)"

text \<open>At most one membership per user and league.\<close>

definition membership_unique :: "db \<Rightarrow> bool" where
  "membership_unique d = distinct (map (\<lambda>m. (m_UserID m, m_LeagueID m)) (memberships d))"

text \<open>
  The league keys in use, in the league table and in the memberships, are texts of
  AUTO_INCREMENT values that were already issued.
\<close>

definition league_keys_issued :: "db \<Rightarrow> bool" where
  "league_keys_issued d =
     (list_all (\<lambda>l. l_LeagueID l \<in> set (map dec [0..<next_league_id d])) (leagues d) \<and>
      list_all (\<lambda>m. m_LeagueID m \<in> set (map dec [0..<next_league_id d])) (memberships d))"

definition ex_env :: env where
  "ex_env =
     \<lparr>bind = js_String, bcrypt_hash = (\<lambda>p. Inr (''hash:'' @ js_String p)),
      random_code = ''RANDOM0001'', user_rejected = (\<lambda>d row. None),
      league_rejected = (\<lambda>d row. None), membership_rejected = (\<lambda>d row. None),
      pick_rejected = never_rejects\<rparr>"

definition ex_join_again :: join_league_body where
  "ex_join_again = \<lparr>jl_leagueCode = Str ''CODE1'', jl_userId = Num 2\<rparr>"

definition ex_steps :: "(env \<times> request) list" where
  "ex_steps =
     [(ex_env, JoinLeague ex_join_again),
      (ex_env, JoinLeague \<lparr>jl_leagueCode = Str ''CODE2'', jl_userId = Num 3\<rparr>),
      (ex_env, CreateLeague \<lparr>cl_name = Str ''Ring'', cl_ownerID = Num 3, cl_scoringRules = Undefined,
                              cl_leagueCode = Undefined\<rparr>),
      (ex_env, JoinLeague \<lparr>jl_leagueCode = Str ''RANDOM0001'', jl_userId = Num 3\<rparr>),
      (ex_env, JoinLeague \<lparr>jl_leagueCode = Str ''RANDOM0001'', jl_userId = Num 1\<rparr>)]"

text \<open>
  The points of a user in a league as the specification words them: the sum of
  \<^verbatim>\<open>PointsEarned\<close> over the user's picks scoped to the league.
\<close>

definition league_points :: "string \<Rightarrow> string \<Rightarrow> db \<Rightarrow> int" where
  "league_points userId leagueId d =
     sum_list (map p_PointsEarned
       (filter (\<lambda>p. p_UserID p = userId \<and> p_LeagueID p = leagueId) (picks d)))"

definition is_member :: "string \<Rightarrow> string \<Rightarrow> db \<Rightarrow> bool" where
  "is_member userId leagueId d =
     (\<exists>m\<in>set (memberships d). m_UserID m = userId \<and> m_LeagueID m = leagueId)"

definition ex_board :: "leaderboard_row list" where
  "ex_board =
     [\<lparr>lb_UserID = ''1'', lb_Username = ''alice'', lb_Email = ''a@x'', lb_TotalPoints = 7\<rparr>,
      \<lparr>lb_UserID = ''2'', lb_Username = ''bob'', lb_Email = ''b@x'', lb_TotalPoints = 3\<rparr>,
      \<lparr>lb_UserID = ''3'', lb_Username = ''carol'', lb_Email = ''c@x'', lb_TotalPoints = 0\<rparr>]"

text \<open>
  Referential integrity of the league references, as the data model has it: every
  membership and every pick names a league of the league table.
\<close>

definition league_references_exist :: "db \<Rightarrow> bool" where
  "league_references_exist d =
     (list_all (\<lambda>m. m_LeagueID m \<in> set (map l_LeagueID (leagues d))) (memberships d) \<and>
      list_all (\<lambda>p. p_LeagueID p \<in> set (map l_LeagueID (leagues d))) (picks d))"

text \<open>
  A database whose Pick table has the league as a foreign key refuses a pick whose
  league no league row has.
\<close>

definition enforces_league_key :: "(db \<Rightarrow> pick_row \<Rightarrow> bool) \<Rightarrow> bool" where
  "enforces_league_key rejects =
     (\<forall>d row. p_LeagueID row \<notin> set (map l_LeagueID (leagues d)) \<longrightarrow> rejects d row)"


definition ex_selections_null :: "jsval list" where
  "ex_selections_null =
     [Obj [(''fightId'', Str ''x1''), (''fighterId'', Str ''fb'')],
      Null,
      Obj [(''fightId'', Str ''x3''), (''fighterId'', Str ''fc'')]]"

section \<open>Saving picks: the loop and the replacement\<close>

lemma get_prop_Inl: "(get_prop v k = Inl ex) = (nullish v \<and> ex = PropertyOfNullish)"
  by (cases v) (auto simp: nullish_def)

lemma save_loop_inv:
  "save_loop rejects u l e items d s er = (ex, d', s', er') \<Longrightarrow>
   \<exists>new. picks d' = picks d @ new \<and> length new + s = s' \<and> er \<le> er' \<and>
     next_pick_id d' = next_pick_id d + length new \<and>
     d' = d\<lparr>picks := picks d', next_pick_id := next_pick_id d'\<rparr> \<and>
     (\<forall>p\<in>set new. in_scope u l e p \<and> p_PointsEarned p = 0 \<and> next_pick_id d \<le> p_PickID p \<and>
        (\<exists>sel\<in>set items. chosen sel = Some (p_FighterID p)))"
proof (induction items arbitrary: d s er)
  case Nil
  then show ?case by simp
next
  case (Cons a items)
  show ?case
  proof (cases "get_prop a ''fighterId''")
    case (Inl x)
    with Cons.prems show ?thesis by simp
  next
    case (Inr v)
    show ?thesis
    proof (cases "truthy v")
      case False
      with Inr Cons.prems have "save_loop rejects u l e items d s er = (ex, d', s', er')" by simp
      from Cons.IH[OF this] show ?thesis by auto
    next
      case True
      show ?thesis
      proof (cases "rejects d (new_pick d u l e (trim (js_String v)))")
        case True
        with Inr \<open>truthy v\<close> Cons.prems
        have "save_loop rejects u l e items d s (Suc er) = (ex, d', s', er')"
          by (simp add: insert_pick_def)
        from Cons.IH[OF this] show ?thesis by auto
      next
        case False
        let ?row = "new_pick d u l e (trim (js_String v))"
        let ?d1 = "d\<lparr>picks := picks d @ [?row], next_pick_id := Suc (next_pick_id d)\<rparr>"
        from False Inr \<open>truthy v\<close> Cons.prems
        have "save_loop rejects u l e items ?d1 (Suc s) er = (ex, d', s', er')"
          by (simp add: insert_pick_def Let_def)
        from Cons.IH[OF this] obtain new where
          n: "picks d' = picks ?d1 @ new" "length new + Suc s = s'" "er \<le> er'"
             "next_pick_id d' = next_pick_id ?d1 + length new"
             "d' = ?d1\<lparr>picks := picks d', next_pick_id := next_pick_id d'\<rparr>"
             "\<forall>p\<in>set new. in_scope u l e p \<and> p_PointsEarned p = 0 \<and> next_pick_id ?d1 \<le> p_PickID p \<and>
                (\<exists>sel\<in>set items. chosen sel = Some (p_FighterID p))"
          by blast
        have row: "in_scope u l e ?row \<and> p_PointsEarned ?row = 0 \<and> next_pick_id d \<le> p_PickID ?row
           \<and> chosen a = Some (p_FighterID ?row)"
          using Inr \<open>truthy v\<close> by (simp add: in_scope_def new_pick_def chosen_def)
        have "picks d' = picks d @ (?row # new) \<and> length (?row # new) + s = s' \<and> er \<le> er' \<and>
          next_pick_id d' = next_pick_id d + length (?row # new) \<and>
          d' = d\<lparr>picks := picks d', next_pick_id := next_pick_id d'\<rparr> \<and>
          (\<forall>p\<in>set (?row # new). in_scope u l e p \<and> p_PointsEarned p = 0 \<and> next_pick_id d \<le> p_PickID p \<and>
            (\<exists>sel\<in>set (a # items). chosen sel = Some (p_FighterID p)))"
          using n row by auto
        then show ?thesis by blast
      qed
    qed
  qed
qed

lemma save_loop_counts:
  "\<forall>sel\<in>set items. \<not> nullish sel \<Longrightarrow>
   save_loop rejects u l e items d s er = (ex, d', s', er') \<Longrightarrow>
   ex = None \<and> s' + er' = s + er + length (List.map_filter chosen items)"
proof (induction items arbitrary: d s er)
  case Nil
  then show ?case by (simp add: List.map_filter_simps)
next
  case (Cons a items)
  from Cons.prems(1) have na: "\<not> nullish a" and rest: "\<forall>sel\<in>set items. \<not> nullish sel" by simp_all
  from na obtain v where v: "get_prop a ''fighterId'' = Inr v"
    by (cases "get_prop a ''fighterId''") (auto simp: get_prop_Inl)
  show ?case
  proof (cases "truthy v")
    case False
    with v have c: "chosen a = None" by (simp add: chosen_def)
    from False v Cons.prems(2) have "save_loop rejects u l e items d s er = (ex, d', s', er')" by simp
    from Cons.IH[OF rest this] c show ?thesis by (simp add: List.map_filter_simps)
  next
    case True
    with v have c: "chosen a = Some (trim (js_String v))" by (simp add: chosen_def)
    show ?thesis
    proof (cases "insert_pick rejects d u l e (trim (js_String v))")
      case None
      with True v Cons.prems(2) have "save_loop rejects u l e items d s (Suc er) = (ex, d', s', er')" by simp
      from Cons.IH[OF rest this] c show ?thesis by (simp add: List.map_filter_simps)
    next
      case (Some d1)
      with True v Cons.prems(2) have "save_loop rejects u l e items d1 (Suc s) er = (ex, d', s', er')" by simp
      from Cons.IH[OF rest this] c show ?thesis by (simp add: List.map_filter_simps)
    qed
  qed
qed

lemma save_loop_by_fighter:
  "\<forall>x r. rejects x r = bad (p_FighterID r) \<Longrightarrow>
   \<forall>sel\<in>set items. \<not> nullish sel \<Longrightarrow>
   save_loop rejects u l e items d s er = (ex, d', s', er') \<Longrightarrow>
   map p_FighterID (picks d') =
     map p_FighterID (picks d) @ filter (\<lambda>f. \<not> bad f) (List.map_filter chosen items) \<and>
   er' = er + length (filter bad (List.map_filter chosen items))"
proof (induction items arbitrary: d s er)
  case Nil
  then show ?case by (simp add: List.map_filter_simps)
next
  case (Cons a items)
  from Cons.prems(2) have na: "\<not> nullish a" and rest: "\<forall>sel\<in>set items. \<not> nullish sel" by simp_all
  from na obtain v where v: "get_prop a ''fighterId'' = Inr v"
    by (cases "get_prop a ''fighterId''") (auto simp: get_prop_Inl)
  show ?case
  proof (cases "truthy v")
    case False
    with v have c: "chosen a = None" by (simp add: chosen_def)
    from False v Cons.prems(3) have "save_loop rejects u l e items d s er = (ex, d', s', er')" by simp
    from Cons.IH[OF Cons.prems(1) rest this] c show ?thesis by (simp add: List.map_filter_simps)
  next
    case True
    let ?f = "trim (js_String v)"
    from True v have c: "chosen a = Some ?f" by (simp add: chosen_def)
    have rj: "rejects d (new_pick d u l e ?f) = bad ?f"
      using Cons.prems(1) by (simp add: new_pick_def)
    show ?thesis
    proof (cases "bad ?f")
      case True
      with rj \<open>truthy v\<close> v Cons.prems(3)
      have "save_loop rejects u l e items d s (Suc er) = (ex, d', s', er')"
        by (simp add: insert_pick_def)
      from Cons.IH[OF Cons.prems(1) rest this] c True show ?thesis
        by (simp add: List.map_filter_simps)
    next
      case False
      let ?d1 = "d\<lparr>picks := picks d @ [new_pick d u l e ?f], next_pick_id := Suc (next_pick_id d)\<rparr>"
      from False rj \<open>truthy v\<close> v Cons.prems(3)
      have "save_loop rejects u l e items ?d1 (Suc s) er = (ex, d', s', er')"
        by (simp add: insert_pick_def Let_def)
      from Cons.IH[OF Cons.prems(1) rest this] c False show ?thesis
        by (simp add: List.map_filter_simps new_pick_def)
    qed
  qed
qed



lemma ex_save_bad: "save_picks rejects_bad ex_db (ex_body (Arr ex_selections_bad)) =
  (Success (''Saved 1 picks (1 failed)'', 1), ex_db\<lparr>picks := ex_kept_picks @ [ex_pick 5 ''fc''], next_pick_id := 6\<rparr>)"
  by code_simp

lemma ex_save_blank: "save_picks rejects_bad ex_db (ex_body (Arr ex_selections_blank)) =
  (Success (''Saved 0 picks'', 0), ex_db\<lparr>picks := ex_kept_picks\<rparr>)"
  by code_simp

lemma ex_save_empty: "save_picks never_rejects ex_db (ex_body (Arr [])) =
  (Success (''Saved 0 picks'', 0), ex_db\<lparr>picks := ex_kept_picks\<rparr>)"
  by code_simp


lemma save_picks_run:
  assumes g: "truthy (sp_userId body)" "truthy (sp_leagueId body)" "truthy (sp_eventId body)"
    and p: "sp_picks body = Arr sels"
    and ids: "u = js_String (sp_userId body)" "l = js_String (sp_leagueId body)"
      "e = js_String (sp_eventId body)"
    and run: "save_picks rejects d body = (r, d')"
  shows "\<exists>ex s er.
      save_loop rejects u l e sels (delete_picks u l e d) 0 0 = (ex, d', s, er) \<and>
      r = (case ex of Some x \<Rightarrow> Failure 500 (Thrown x)
           | None \<Rightarrow> if s = 0 \<and> er > 0
                     then Failure 500 (Msg ''All picks failed to save. Check server logs.'')
                     else Success (saved_message s er, s))"
proof -
  obtain ex d2 s er where L: "save_loop rejects u l e sels (delete_picks u l e d) 0 0 = (ex, d2, s, er)"
    by (metis prod_cases4)
  from run g p L ids have "d' = d2 \<and> r = (case ex of Some x \<Rightarrow> Failure 500 (Thrown x)
              | None \<Rightarrow> if s = 0 \<and> er > 0
                        then Failure 500 (Msg ''All picks failed to save. Check server logs.'')
                        else Success (saved_message s er, s))"
    by (auto simp: save_picks_def Let_def split: option.splits if_splits)
  with L show ?thesis by blast
qed


text \<open>
  A refused \<^verbatim>\<open>INSERT\<close> is caught inside the loop. When no entry of the list is
  \<^verbatim>\<open>null\<close>, every selection that names a fighter is attempted, whatever happened to the
  ones before it: the counters add up to the number of such selections, \<^verbatim>\<open>savedCount\<close>
  rows are in the scope afterwards, the call fails with "All picks failed to save" exactly
  when \<^verbatim>\<open>savedCount = 0\<close> and \<^verbatim>\<open>errorCount > 0\<close>, and otherwise it succeeds with
  \<^verbatim>\<open>picksCount = savedCount\<close> and a message that spells out both counters. When the
  database refuses a row for its fighter alone, exactly the other fighters are stored.
\<close>

lemma insert_failures_isolated:
  assumes "truthy (sp_userId body)" and "truthy (sp_leagueId body)" and "truthy (sp_eventId body)"
    and "sp_picks body = Arr sels" and "sels \<noteq> []" and "\<forall>sel\<in>set sels. \<not> nullish sel"
    and "u = js_String (sp_userId body)" and "l = js_String (sp_leagueId body)"
    and "e = js_String (sp_eventId body)"
    and "save_picks rejects d body = (r, d')"
  shows "\<exists>savedCount errorCount.
       savedCount + errorCount = length (List.map_filter chosen sels)
     \<and> length (filter (in_scope u l e) (picks d')) = savedCount
     \<and> (r = Failure 500 (Msg ''All picks failed to save. Check server logs.''))
         = (savedCount = 0 \<and> 0 < errorCount)
     \<and> (r = Success (''Saved '' @ dec savedCount @ '' picks'' @
                       (if 0 < errorCount then '' ('' @ dec errorCount @ '' failed)'' else []),
                     savedCount))
         = (\<not> (savedCount = 0 \<and> 0 < errorCount))
     \<and> ((\<forall>x row. rejects x row = bad (p_FighterID row)) \<longrightarrow>
          map p_FighterID (filter (in_scope u l e) (picks d'))
            = filter (\<lambda>f. \<not> bad f) (List.map_filter chosen sels)
          \<and> errorCount = length (filter bad (List.map_filter chosen sels)))"
proof -
  let ?d1 = "delete_picks u l e d"
  from save_picks_run[OF assms(1-4) assms(7-10)]
  obtain ex s er where L: "save_loop rejects u l e sels ?d1 0 0 = (ex, d', s, er)"
    and R: "r = (case ex of Some x \<Rightarrow> Failure 500 (Thrown x)
              | None \<Rightarrow> if s = 0 \<and> er > 0
                        then Failure 500 (Msg ''All picks failed to save. Check server logs.'')
                        else Success (saved_message s er, s))"
    by blast
  from save_loop_counts[OF assms(6) L] have ex: "ex = None"
    and cnt: "s + er = length (List.map_filter chosen sels)" by simp_all
  from save_loop_inv[OF L] obtain new where
    n: "picks d' = picks ?d1 @ new" "length new + 0 = s"
       "\<forall>p\<in>set new. in_scope u l e p \<and> p_PointsEarned p = 0 \<and> next_pick_id ?d1 \<le> p_PickID p \<and>
          (\<exists>sel\<in>set sels. chosen sel = Some (p_FighterID p))"
    by blast
  have d1: "picks ?d1 = filter (\<lambda>p. \<not> in_scope u l e p) (picks d)"
    by (simp add: delete_picks_def)
  have newin: "filter (in_scope u l e) new = new"
    using n(3) by (simp add: filter_id_conv)
  have inn: "filter (in_scope u l e) (picks d') = new"
    using n(1) d1 newin by simp
  have len: "length (filter (in_scope u l e) (picks d')) = s" using inn n(2) by simp
  have F: "(r = Failure 500 (Msg ''All picks failed to save. Check server logs.'')) = (s = 0 \<and> 0 < er)"
    using R ex by simp
  have S: "(r = Success (''Saved '' @ dec s @ '' picks'' @
                          (if 0 < er then '' ('' @ dec er @ '' failed)'' else []), s))
             = (\<not> (s = 0 \<and> 0 < er))"
    using R ex by (simp add: saved_message_def)
  have P: "(\<forall>x row. rejects x row = bad (p_FighterID row)) \<longrightarrow>
          map p_FighterID (filter (in_scope u l e) (picks d'))
            = filter (\<lambda>f. \<not> bad f) (List.map_filter chosen sels)
          \<and> er = length (filter bad (List.map_filter chosen sels))"
  proof
    assume h: "\<forall>x row. rejects x row = bad (p_FighterID row)"
    from save_loop_by_fighter[OF h assms(6) L]
    have a: "map p_FighterID (picks d') =
        map p_FighterID (picks ?d1) @ filter (\<lambda>f. \<not> bad f) (List.map_filter chosen sels)"
      and b: "er = length (filter bad (List.map_filter chosen sels))" by simp_all
    from a n(1) have "map p_FighterID new = filter (\<lambda>f. \<not> bad f) (List.map_filter chosen sels)"
      by simp
    with inn b show "map p_FighterID (filter (in_scope u l e) (picks d'))
            = filter (\<lambda>f. \<not> bad f) (List.map_filter chosen sels)
          \<and> er = length (filter bad (List.map_filter chosen sels))" by simp
  qed
  from cnt len F S P show ?thesis by blast
qed


lemma ex_body_guard:
  "truthy (sp_userId (ex_body v))" "truthy (sp_leagueId (ex_body v))"
  "truthy (sp_eventId (ex_body v))" "sp_picks (ex_body v) = v"
  "js_String (sp_userId (ex_body v)) = ''1''" "js_String (sp_leagueId (ex_body v)) = ''1''"
  "js_String (sp_eventId (ex_body v)) = ''e1''"
  by (simp_all add: ex_body_def show_int_def dec.simps digit_def)


lemma ex_chosen_bad: "List.map_filter chosen ex_selections_bad = [''bad'', ''fc'']"
  by code_simp


lemma insert_failures_isolated_example:
  "truthy (sp_userId (ex_body (Arr ex_selections_bad))) \<and>
   truthy (sp_leagueId (ex_body (Arr ex_selections_bad))) \<and>
   truthy (sp_eventId (ex_body (Arr ex_selections_bad))) \<and>
   ex_selections_bad \<noteq> [] \<and> list_all (\<lambda>sel. \<not> nullish sel) ex_selections_bad \<and>
   (\<forall>x row. rejects_bad x row = (\<lambda>f. f = ''bad'') (p_FighterID row)) \<and>
   (\<exists>d'. save_picks rejects_bad ex_db (ex_body (Arr ex_selections_bad))
            = (Success (''Saved 1 picks (1 failed)'', 1), d') \<and>
      map p_FighterID (filter (in_scope ''1'' ''1'' ''e1'') (picks d')) = [''fc''])"
proof -
  let ?d' = "ex_db\<lparr>picks := ex_kept_picks @ [ex_pick 5 ''fc''], next_pick_id := 6\<rparr>"
  have ne: "ex_selections_bad \<noteq> []" by (simp add: ex_selections_bad_def)
  have obj: "\<forall>sel\<in>set ex_selections_bad. \<not> nullish sel"
    by (simp add: ex_selections_bad_def nullish_def)
  have bad: "\<forall>x row. rejects_bad x row = (\<lambda>f. f = ''bad'') (p_FighterID row)"
    by (simp add: rejects_bad_def)
  from insert_failures_isolated [OF ex_body_guard(1-4) ne obj ex_body_guard(5-7)[symmetric] ex_save_bad,
      of "\<lambda>f. f = ''bad''"] bad ex_chosen_bad
  have "map p_FighterID (filter (in_scope ''1'' ''1'' ''e1'') (picks ?d')) = [''fc'']"
    by auto
  with ex_save_bad ne obj bad ex_body_guard(1-3) show ?thesis
    by (simp add: list_all_iff)
qed

text \<open>
  C10, as amended. A selection that is not \<^verbatim>\<open>null\<close> and whose \<^verbatim>\<open>fighterId\<close> is
  missing or falsy leaves the loop's state and both counters as they are; a non-empty list
  of such selections still deletes the picks of the scope, inserts nothing and answers
  with success and \<^verbatim>\<open>picksCount = 0\<close>.
\<close>

theorem C10_missing_fighter_id_skipped:
  assumes "truthy (sp_userId body)" and "truthy (sp_leagueId body)" and "truthy (sp_eventId body)"
    and "sp_picks body = Arr sels" and "sels \<noteq> []"
    and "\<forall>sel\<in>set sels. \<exists>v. get_prop sel ''fighterId'' = Inr v \<and> \<not> truthy v"
    and "get_prop sel ''fighterId'' = Inr v" and "\<not> truthy v"
  shows "save_loop rejects u l e (sel # rest) d2 savedCount errorCount
           = save_loop rejects u l e rest d2 savedCount errorCount
       \<and> save_picks rejects d body =
          (Success (''Saved 0 picks'', 0),
           delete_picks (js_String (sp_userId body)) (js_String (sp_leagueId body))
             (js_String (sp_eventId body)) d)"
proof -
  have skip: "\<And>items dd. \<forall>s\<in>set items. \<exists>v. get_prop s ''fighterId'' = Inr v \<and> \<not> truthy v \<Longrightarrow>
     save_loop rejects u' l' e' items dd 0 0 = (None, dd, 0, 0)" for u' l' e'
  proof -
    fix items :: "jsval list" and dd
    show "\<forall>s\<in>set items. \<exists>v. get_prop s ''fighterId'' = Inr v \<and> \<not> truthy v \<Longrightarrow>
     save_loop rejects u' l' e' items dd 0 0 = (None, dd, 0, 0)"
      by (induction items) auto
  qed
  have one: "save_loop rejects u l e (sel # rest) d2 savedCount errorCount
           = save_loop rejects u l e rest d2 savedCount errorCount"
    using assms(7,8) by simp
  have "save_picks rejects d body =
          (Success (''Saved 0 picks'', 0),
           delete_picks (js_String (sp_userId body)) (js_String (sp_leagueId body))
             (js_String (sp_eventId body)) d)"
    using assms(1-4) skip[OF assms(6)]
    by (simp add: save_picks_def Let_def saved_message_def dec.simps digit_def)
  with one show ?thesis by simp
qed

theorem C10_missing_fighter_id_skipped_witness:
  "truthy (sp_userId (ex_body (Arr ex_selections_blank))) \<and>
   truthy (sp_leagueId (ex_body (Arr ex_selections_blank))) \<and>
   truthy (sp_eventId (ex_body (Arr ex_selections_blank))) \<and>
   ex_selections_blank \<noteq> [] \<and>
   list_all (\<lambda>sel. \<exists>v. get_prop sel ''fighterId'' = Inr v \<and> \<not> truthy v) ex_selections_blank \<and>
   get_prop (Obj [(''fightId'', Str ''x1'')]) ''fighterId'' = Inr Undefined \<and> \<not> truthy Undefined \<and>
   save_loop rejects_bad ''1'' ''1'' ''e1'' [Obj [(''fightId'', Str ''x1'')]] ex_db 0 0
      = (None, ex_db, 0, 0) \<and>
   save_picks rejects_bad ex_db (ex_body (Arr ex_selections_blank)) =
      (Success (''Saved 0 picks'', 0), ex_db\<lparr>picks := ex_kept_picks\<rparr>) \<and>
   length (picks ex_db) = 4 \<and> length ex_kept_picks = 3"
proof -
  have ne: "ex_selections_blank \<noteq> []" by (simp add: ex_selections_blank_def)
  have blank: "\<forall>sel\<in>set ex_selections_blank. \<exists>v. get_prop sel ''fighterId'' = Inr v \<and> \<not> truthy v"
    by (simp add: ex_selections_blank_def)
  have gp: "get_prop (Obj [(''fightId'', Str ''x1'')]) ''fighterId'' = Inr Undefined" by simp
  have nt: "\<not> truthy Undefined" by simp
  have del: "delete_picks ''1'' ''1'' ''e1'' ex_db = ex_db\<lparr>picks := ex_kept_picks\<rparr>"
    by (simp add: delete_picks_def ex_db_def ex_kept_picks_def in_scope_def)
  from C10_missing_fighter_id_skipped [OF ex_body_guard(1-4) ne blank gp nt,
      of rejects_bad "''1''" "''1''" "''e1''" "[]" ex_db 0 0 ex_db] del
  have "save_loop rejects_bad ''1'' ''1'' ''e1'' [Obj [(''fightId'', Str ''x1'')]] ex_db 0 0
      = (None, ex_db, 0, 0) \<and>
     save_picks rejects_bad ex_db (ex_body (Arr ex_selections_blank)) =
      (Success (''Saved 0 picks'', 0), ex_db\<lparr>picks := ex_kept_picks\<rparr>)"
    by (simp add: ex_body_guard)
  moreover have "length (picks ex_db) = 4 \<and> length ex_kept_picks = 3"
    by (simp add: ex_db_def ex_kept_picks_def)
  ultimately show ?thesis using ne blank ex_body_guard(1-3)
    by (simp add: list_all_iff)
qed

text \<open>
  C2. An empty array is truthy, so \<^verbatim>\<open>!picks\<close> lets \<^verbatim>\<open>picks = []\<close> through: the pick
  that user 1 had for event e1 in league 1 is deleted and the call answers with success.
\<close>

theorem C2_empty_selection_list_wipes_picks:
  "save_picks never_rejects ex_db (ex_body (Arr [])) =
     (Success (''Saved 0 picks'', 0), ex_db\<lparr>picks := ex_kept_picks\<rparr>)
   \<and> filter (in_scope ''1'' ''1'' ''e1'') (picks ex_db) = [ex_pick 1 ''fa''\<lparr>p_PointsEarned := 5\<rparr>]
   \<and> filter (in_scope ''1'' ''1'' ''e1'') ex_kept_picks = []"
  by (simp add: ex_save_empty) (simp add: ex_db_def ex_kept_picks_def in_scope_def ex_pick_def)

theorem C2_empty_selection_list_wipes_picks_witness:
  "truthy (Arr []) \<and>
   fst (save_picks never_rejects ex_db (ex_body (Arr []))) = Success (''Saved 0 picks'', 0) \<and>
   length (filter (in_scope ''1'' ''1'' ''e1'') (picks ex_db)) = 1 \<and>
   filter (in_scope ''1'' ''1'' ''e1'')
     (picks (snd (save_picks never_rejects ex_db (ex_body (Arr []))))) = []"
  using C2_empty_selection_list_wipes_picks by simp

section \<open>Deleting a league; the empty fighter history\<close>

text \<open>
  C8. When no fighter matches the name, the history is a success with no rows and the
  message "No fighters found". When fighters match, the response carries no message but
  the list of the matched fighters, which tells the two cases apart; its rows are empty
  when no fight has a matched fighter in a corner.
\<close>

theorem C8_no_fighter_found:
  assumes "truthy fighterName"
  shows
    "(matched_fighters like d fighterName = [] \<longrightarrow>
        fighter_history like d fighterName =
          Success \<lparr>hp_data = [], hp_message = Some ''No fighters found'', hp_fighters = None\<rparr>)
   \<and> (matched_fighters like d fighterName \<noteq> [] \<longrightarrow>
        (\<exists>rows. fighter_history like d fighterName =
           Success \<lparr>hp_data = rows, hp_message = None,
                    hp_fighters = Some (map (\<lambda>f. (f_fighter_id f, f_name f))
                                         (matched_fighters like d fighterName))\<rparr>
         \<and> ((\<forall>ft\<in>set (fights d).
                \<forall>f\<in>set (matched_fighters like d fighterName).
                  ft_red_fighter_id ft \<noteq> f_fighter_id f \<and> ft_blue_fighter_id ft \<noteq> f_fighter_id f)
              \<longrightarrow> rows = [])))"
proof -
  have none: "(\<forall>ft\<in>set (fights d). \<forall>i\<in>set ids. ft_red_fighter_id ft \<noteq> i \<and> ft_blue_fighter_id ft \<noteq> i)
      \<Longrightarrow> history_query ids d = []" for ids
  proof -
    assume h: "\<forall>ft\<in>set (fights d). \<forall>i\<in>set ids. ft_red_fighter_id ft \<noteq> i \<and> ft_blue_fighter_id ft \<noteq> i"
    have "set (history_join ids d) = {}"
      using h by (auto simp: history_join_def)
    then show "history_query ids d = []" by (simp add: history_query_def)
  qed
  show ?thesis
    using assms none[of "map f_fighter_id (matched_fighters like d fighterName)"]
    by (auto simp: fighter_history_def Let_def)
qed

theorem C8_no_fighter_found_witness:
  "truthy (Str ''Nobody'') \<and> matched_fighters ex_like ex_db (Str ''Nobody'') = [] \<and>
   fighter_history ex_like ex_db (Str ''Nobody'') =
     Success \<lparr>hp_data = [], hp_message = Some ''No fighters found'', hp_fighters = None\<rparr> \<and>
   truthy (Str ''Holloway'') \<and> map f_fighter_id (matched_fighters ex_like ex_db (Str ''Holloway'')) = [''fd''] \<and>
   list_all (\<lambda>ft. ft_red_fighter_id ft \<noteq> ''fd'' \<and> ft_blue_fighter_id ft \<noteq> ''fd'') (fights ex_db) \<and>
   fighter_history ex_like ex_db (Str ''Holloway'') =
     Success \<lparr>hp_data = [], hp_message = None, hp_fighters = Some [(''fd'', ''Max Holloway'')]\<rparr>"
proof -
  have t: "truthy (Str ''Nobody'')" "truthy (Str ''Holloway'')" by simp_all
  have m0: "matched_fighters ex_like ex_db (Str ''Nobody'') = []" by code_simp
  have m1: "matched_fighters ex_like ex_db (Str ''Holloway'') =
      [\<lparr>f_fighter_id = ''fd'', f_name = ''Max Holloway'', f_wins = Num 26, f_losses = Num 8,
        f_draws = Num 0\<rparr>]" by code_simp
  have nf: "list_all (\<lambda>ft. ft_red_fighter_id ft \<noteq> ''fd'' \<and> ft_blue_fighter_id ft \<noteq> ''fd'') (fights ex_db)"
    by (simp add: ex_db_def)
  have a: "fighter_history ex_like ex_db (Str ''Nobody'') =
     Success \<lparr>hp_data = [], hp_message = Some ''No fighters found'', hp_fighters = None\<rparr>"
    using C8_no_fighter_found [OF t(1), of ex_like ex_db] m0 by simp
  have b: "fighter_history ex_like ex_db (Str ''Holloway'') =
     Success \<lparr>hp_data = [], hp_message = None, hp_fighters = Some [(''fd'', ''Max Holloway'')]\<rparr>"
    using C8_no_fighter_found [OF t(2), of ex_like ex_db] m1 nf by (auto simp: list_all_iff)
  from t m0 m1 nf a b show ?thesis by simp
qed

section \<open>The fights of an event; the history of a fighter\<close>

lemma fighter_map_absent:
  "fighterId \<notin> f_fighter_id ` set fs \<Longrightarrow> fighter_map fs m fighterId = m fighterId"
  by (induction fs arbitrary: m) auto

lemma fighter_map_present:
  "fighterId \<in> f_fighter_id ` set fs \<Longrightarrow>
   \<exists>f\<in>set fs. f_fighter_id f = fighterId \<and>
     fighter_map fs m fighterId = Some (f_name f, fighter_record f)"
proof (induction fs arbitrary: m)
  case Nil
  then show ?case by simp
next
  case (Cons a fs)
  show ?case
  proof (cases "fighterId \<in> f_fighter_id ` set fs")
    case True
    from Cons.IH[OF True] show ?thesis by auto
  next
    case False
    with Cons.prems have "f_fighter_id a = fighterId" by auto
    with False show ?thesis by (simp add: fighter_map_absent)
  qed
qed

lemma event_fights_rows:
  "event_fights d eventId =
     Success (map (map_fight (fighter_map (fighters d) Map.empty))
                  (filter (\<lambda>f. ft_event_id f = eventId) (fights d)))"
  by (simp add: event_fights_def Let_def)

text \<open>
  C6. The views are the fights of the event, in order, one each. A winner is recorded
  when \<^verbatim>\<open>winner_id\<close> is neither NULL nor the empty text. A view's result is
  "Pending" when no winner is recorded, the red corner's name and " Win" when the winner
  is the red corner, the blue corner's name and " Win" when it is the blue corner only,
  and "Draw/No Contest" when a recorded winner is neither. A corner whose id no fighter
  row has gets the name "Unknown" and the empty record; otherwise its name is a fighter
  row's of that id and its record that row's wins-losses-draws ("N/A" when the row has no
  \<^verbatim>\<open>wins\<close> column). The weight class is "Catchweight" when the division is missing or
  NULL, and the division when that is truthy.
\<close>

theorem C6_fight_views:
  assumes "event_fights d eventId = Success views"
  shows "list_all2
    (\<lambda>row v.
       v_FighterA_ID v = ft_red_fighter_id row \<and> v_FighterB_ID v = ft_blue_fighter_id row
     \<and> (\<not> has_winner row \<longrightarrow> v_Result v = ''Pending'')
     \<and> (has_winner row \<and> ft_winner_id row = Some (ft_red_fighter_id row) \<longrightarrow>
          v_Result v = v_FighterAName v @ '' Win'')
     \<and> (has_winner row \<and> ft_winner_id row \<noteq> Some (ft_red_fighter_id row) \<and>
        ft_winner_id row = Some (ft_blue_fighter_id row) \<longrightarrow>
          v_Result v = v_FighterBName v @ '' Win'')
     \<and> (has_winner row \<and> ft_winner_id row \<noteq> Some (ft_red_fighter_id row) \<and>
        ft_winner_id row \<noteq> Some (ft_blue_fighter_id row) \<longrightarrow>
          v_Result v = ''Draw/No Contest'')
     \<and> (ft_red_fighter_id row \<notin> f_fighter_id ` set (fighters d) \<longrightarrow>
          v_FighterAName v = ''Unknown'' \<and> v_FighterARecord v = [])
     \<and> (ft_red_fighter_id row \<in> f_fighter_id ` set (fighters d) \<longrightarrow>
          (\<exists>f\<in>set (fighters d). f_fighter_id f = ft_red_fighter_id row \<and>
             v_FighterAName v = f_name f \<and>
             v_FighterARecord v =
               (if f_wins f \<noteq> Undefined
                then js_String (f_wins f) @ ''-'' @ js_String (f_losses f) @ ''-'' @ js_String (f_draws f)
                else ''N/A'')))
     \<and> (ft_blue_fighter_id row \<notin> f_fighter_id ` set (fighters d) \<longrightarrow>
          v_FighterBName v = ''Unknown'' \<and> v_FighterBRecord v = [])
     \<and> (ft_blue_fighter_id row \<in> f_fighter_id ` set (fighters d) \<longrightarrow>
          (\<exists>f\<in>set (fighters d). f_fighter_id f = ft_blue_fighter_id row \<and>
             v_FighterBName v = f_name f \<and>
             v_FighterBRecord v =
               (if f_wins f \<noteq> Undefined
                then js_String (f_wins f) @ ''-'' @ js_String (f_losses f) @ ''-'' @ js_String (f_draws f)
                else ''N/A'')))
     \<and> (ft_division row = Undefined \<or> ft_division row = Null \<longrightarrow>
          v_WeightClass v = Str ''Catchweight'')
     \<and> (truthy (ft_division row) \<longrightarrow> v_WeightClass v = ft_division row))
    (filter (\<lambda>f. ft_event_id f = eventId) (fights d)) views"
proof -
  let ?fm = "fighter_map (fighters d) Map.empty"
  have views: "views = map (map_fight ?fm) (filter (\<lambda>f. ft_event_id f = eventId) (fights d))"
    using assms by (simp add: event_fights_rows)
  have corner_absent: "fid \<notin> f_fighter_id ` set (fighters d) \<Longrightarrow>
      (case ?fm fid of Some x \<Rightarrow> x | None \<Rightarrow> (''Unknown'', [])) = (''Unknown'', [])" for fid
    by (simp add: fighter_map_absent)
  have corner_present: "fid \<in> f_fighter_id ` set (fighters d) \<Longrightarrow>
      \<exists>f\<in>set (fighters d). f_fighter_id f = fid \<and>
        (case ?fm fid of Some x \<Rightarrow> x | None \<Rightarrow> (''Unknown'', [])) = (f_name f, fighter_record f)" for fid
    using fighter_map_present[of fid "fighters d" Map.empty] by auto
  have one: "v_FighterA_ID (map_fight ?fm row) = ft_red_fighter_id row \<and>
       v_FighterB_ID (map_fight ?fm row) = ft_blue_fighter_id row
     \<and> (\<not> has_winner row \<longrightarrow> v_Result (map_fight ?fm row) = ''Pending'')
     \<and> (has_winner row \<and> ft_winner_id row = Some (ft_red_fighter_id row) \<longrightarrow>
          v_Result (map_fight ?fm row) = v_FighterAName (map_fight ?fm row) @ '' Win'')
     \<and> (has_winner row \<and> ft_winner_id row \<noteq> Some (ft_red_fighter_id row) \<and>
        ft_winner_id row = Some (ft_blue_fighter_id row) \<longrightarrow>
          v_Result (map_fight ?fm row) = v_FighterBName (map_fight ?fm row) @ '' Win'')
     \<and> (has_winner row \<and> ft_winner_id row \<noteq> Some (ft_red_fighter_id row) \<and>
        ft_winner_id row \<noteq> Some (ft_blue_fighter_id row) \<longrightarrow>
          v_Result (map_fight ?fm row) = ''Draw/No Contest'')
     \<and> (ft_red_fighter_id row \<notin> f_fighter_id ` set (fighters d) \<longrightarrow>
          v_FighterAName (map_fight ?fm row) = ''Unknown'' \<and> v_FighterARecord (map_fight ?fm row) = [])
     \<and> (ft_red_fighter_id row \<in> f_fighter_id ` set (fighters d) \<longrightarrow>
          (\<exists>f\<in>set (fighters d). f_fighter_id f = ft_red_fighter_id row \<and>
             v_FighterAName (map_fight ?fm row) = f_name f \<and>
             v_FighterARecord (map_fight ?fm row) =
               (if f_wins f \<noteq> Undefined
                then js_String (f_wins f) @ ''-'' @ js_String (f_losses f) @ ''-'' @ js_String (f_draws f)
                else ''N/A'')))
     \<and> (ft_blue_fighter_id row \<notin> f_fighter_id ` set (fighters d) \<longrightarrow>
          v_FighterBName (map_fight ?fm row) = ''Unknown'' \<and> v_FighterBRecord (map_fight ?fm row) = [])
     \<and> (ft_blue_fighter_id row \<in> f_fighter_id ` set (fighters d) \<longrightarrow>
          (\<exists>f\<in>set (fighters d). f_fighter_id f = ft_blue_fighter_id row \<and>
             v_FighterBName (map_fight ?fm row) = f_name f \<and>
             v_FighterBRecord (map_fight ?fm row) =
               (if f_wins f \<noteq> Undefined
                then js_String (f_wins f) @ ''-'' @ js_String (f_losses f) @ ''-'' @ js_String (f_draws f)
                else ''N/A'')))
     \<and> (ft_division row = Undefined \<or> ft_division row = Null \<longrightarrow>
          v_WeightClass (map_fight ?fm row) = Str ''Catchweight'')
     \<and> (truthy (ft_division row) \<longrightarrow> v_WeightClass (map_fight ?fm row) = ft_division row)" for row
  proof -
    have ids: "v_FighterA_ID (map_fight ?fm row) = ft_red_fighter_id row \<and>
       v_FighterB_ID (map_fight ?fm row) = ft_blue_fighter_id row"
      by (simp add: map_fight_def Let_def)
    have res: "(\<not> has_winner row \<longrightarrow> v_Result (map_fight ?fm row) = ''Pending'')
     \<and> (has_winner row \<and> ft_winner_id row = Some (ft_red_fighter_id row) \<longrightarrow>
          v_Result (map_fight ?fm row) = v_FighterAName (map_fight ?fm row) @ '' Win'')
     \<and> (has_winner row \<and> ft_winner_id row \<noteq> Some (ft_red_fighter_id row) \<and>
        ft_winner_id row = Some (ft_blue_fighter_id row) \<longrightarrow>
          v_Result (map_fight ?fm row) = v_FighterBName (map_fight ?fm row) @ '' Win'')
     \<and> (has_winner row \<and> ft_winner_id row \<noteq> Some (ft_red_fighter_id row) \<and>
        ft_winner_id row \<noteq> Some (ft_blue_fighter_id row) \<longrightarrow>
          v_Result (map_fight ?fm row) = ''Draw/No Contest'')"
      by (simp add: map_fight_def Let_def)
    have a0: "ft_red_fighter_id row \<notin> f_fighter_id ` set (fighters d) \<longrightarrow>
          v_FighterAName (map_fight ?fm row) = ''Unknown'' \<and> v_FighterARecord (map_fight ?fm row) = []"
      using corner_absent[of "ft_red_fighter_id row"] by (simp add: map_fight_def Let_def)
    have b0: "ft_blue_fighter_id row \<notin> f_fighter_id ` set (fighters d) \<longrightarrow>
          v_FighterBName (map_fight ?fm row) = ''Unknown'' \<and> v_FighterBRecord (map_fight ?fm row) = []"
      using corner_absent[of "ft_blue_fighter_id row"] by (simp add: map_fight_def Let_def)
    have a1: "ft_red_fighter_id row \<in> f_fighter_id ` set (fighters d) \<longrightarrow>
          (\<exists>f\<in>set (fighters d). f_fighter_id f = ft_red_fighter_id row \<and>
             v_FighterAName (map_fight ?fm row) = f_name f \<and>
             v_FighterARecord (map_fight ?fm row) =
               (if f_wins f \<noteq> Undefined
                then js_String (f_wins f) @ ''-'' @ js_String (f_losses f) @ ''-'' @ js_String (f_draws f)
                else ''N/A''))"
    proof
      assume "ft_red_fighter_id row \<in> f_fighter_id ` set (fighters d)"
      from corner_present[OF this] obtain f where f: "f \<in> set (fighters d)"
        "f_fighter_id f = ft_red_fighter_id row"
        "(case ?fm (ft_red_fighter_id row) of Some x \<Rightarrow> x | None \<Rightarrow> (''Unknown'', []))
           = (f_name f, fighter_record f)" by blast
      from f(3) have "v_FighterAName (map_fight ?fm row) = f_name f \<and>
          v_FighterARecord (map_fight ?fm row) = fighter_record f"
        by (simp add: map_fight_def Let_def)
      with f(1,2) show "\<exists>f\<in>set (fighters d). f_fighter_id f = ft_red_fighter_id row \<and>
             v_FighterAName (map_fight ?fm row) = f_name f \<and>
             v_FighterARecord (map_fight ?fm row) =
               (if f_wins f \<noteq> Undefined
                then js_String (f_wins f) @ ''-'' @ js_String (f_losses f) @ ''-'' @ js_String (f_draws f)
                else ''N/A'')"
        unfolding fighter_record_def by blast
    qed
    have b1: "ft_blue_fighter_id row \<in> f_fighter_id ` set (fighters d) \<longrightarrow>
          (\<exists>f\<in>set (fighters d). f_fighter_id f = ft_blue_fighter_id row \<and>
             v_FighterBName (map_fight ?fm row) = f_name f \<and>
             v_FighterBRecord (map_fight ?fm row) =
               (if f_wins f \<noteq> Undefined
                then js_String (f_wins f) @ ''-'' @ js_String (f_losses f) @ ''-'' @ js_String (f_draws f)
                else ''N/A''))"
    proof
      assume "ft_blue_fighter_id row \<in> f_fighter_id ` set (fighters d)"
      from corner_present[OF this] obtain f where f: "f \<in> set (fighters d)"
        "f_fighter_id f = ft_blue_fighter_id row"
        "(case ?fm (ft_blue_fighter_id row) of Some x \<Rightarrow> x | None \<Rightarrow> (''Unknown'', []))
           = (f_name f, fighter_record f)" by blast
      from f(3) have "v_FighterBName (map_fight ?fm row) = f_name f \<and>
          v_FighterBRecord (map_fight ?fm row) = fighter_record f"
        by (simp add: map_fight_def Let_def)
      with f(1,2) show "\<exists>f\<in>set (fighters d). f_fighter_id f = ft_blue_fighter_id row \<and>
             v_FighterBName (map_fight ?fm row) = f_name f \<and>
             v_FighterBRecord (map_fight ?fm row) =
               (if f_wins f \<noteq> Undefined
                then js_String (f_wins f) @ ''-'' @ js_String (f_losses f) @ ''-'' @ js_String (f_draws f)
                else ''N/A'')"
        unfolding fighter_record_def by blast
    qed
    have w: "(ft_division row = Undefined \<or> ft_division row = Null \<longrightarrow>
          v_WeightClass (map_fight ?fm row) = Str ''Catchweight'')
     \<and> (truthy (ft_division row) \<longrightarrow> v_WeightClass (map_fight ?fm row) = ft_division row)"
      by (auto simp: map_fight_def Let_def js_or_def)
    from ids res a0 a1 b0 b1 w show ?thesis by blast
  qed
  show ?thesis
    unfolding views list_all2_map2
    by (rule list_all2_refl) (rule one)
qed

lemma ex_views_eval: "event_fights ex_db ''e1'' = Success ex_views"
  by code_simp

theorem C6_fight_views_witness:
  "event_fights ex_db ''e1'' = Success ex_views \<and>
   map ft_fight_id (filter (\<lambda>f. ft_event_id f = ''e1'') (fights ex_db)) = [''x1'', ''x3''] \<and>
   map ft_winner_id (filter (\<lambda>f. ft_event_id f = ''e1'') (fights ex_db)) = [Some ''fb'', None] \<and>
   map ft_division (filter (\<lambda>f. ft_event_id f = ''e1'') (fights ex_db)) = [Str ''Middleweight'', Null] \<and>
   ''zz'' \<notin> f_fighter_id ` set (fighters ex_db) \<and>
   map v_Result ex_views = [''Erick Silva Win'', ''Pending''] \<and>
   map v_FighterBName ex_views = [''Erick Silva'', ''Unknown''] \<and>
   map v_FighterBRecord ex_views = [''20-9-0'', []] \<and>
   map v_WeightClass ex_views = [Str ''Middleweight'', Str ''Catchweight'']"
proof -
  note inst = C6_fight_views [OF ex_views_eval]
  have rest:
    "map ft_fight_id (filter (\<lambda>f. ft_event_id f = ''e1'') (fights ex_db)) = [''x1'', ''x3''] \<and>
     map ft_winner_id (filter (\<lambda>f. ft_event_id f = ''e1'') (fights ex_db)) = [Some ''fb'', None] \<and>
     map ft_division (filter (\<lambda>f. ft_event_id f = ''e1'') (fights ex_db)) = [Str ''Middleweight'', Null] \<and>
     ''zz'' \<notin> f_fighter_id ` set (fighters ex_db) \<and>
     map v_Result ex_views = [''Erick Silva Win'', ''Pending''] \<and>
     map v_FighterBName ex_views = [''Erick Silva'', ''Unknown''] \<and>
     map v_FighterBRecord ex_views = [''20-9-0'', []] \<and>
     map v_WeightClass ex_views = [Str ''Middleweight'', Str ''Catchweight'']"
    by (simp add: ex_views_def ex_db_def)
  from inst ex_views_eval rest show ?thesis by blast
qed

lemma process_fight_result:
  "h_Result (process_fight ids (ft, e, fa, fb)) =
     claimed_result (if ft_red_fighter_id ft \<in> set ids then ft_red_fighter_id ft
                     else ft_blue_fighter_id ft) ft"
  by (simp add: process_fight_def claimed_result_def Let_def)

lemma process_fight_fields:
  "h_Opponent (process_fight ids (ft, e, fa, fb)) =
     (if ft_red_fighter_id ft \<in> set ids then f_name fb else f_name fa)"
  "h_EventDate (process_fight ids (ft, e, fa, fb)) = e_date e"
  "h_EventName (process_fight ids (ft, e, fa, fb)) = e_event_name e"
  by (simp_all add: process_fight_def Let_def)

lemma history_join_row:
  "(ft, e, fa, fb) \<in> set (history_join ids d) \<longleftrightarrow>
     ft \<in> set (fights d) \<and> e \<in> set (events d) \<and> fa \<in> set (fighters d) \<and> fb \<in> set (fighters d) \<and>
     ft_event_id ft = e_event_id e \<and> ft_red_fighter_id ft = f_fighter_id fa \<and>
     ft_blue_fighter_id ft = f_fighter_id fb \<and>
     (ft_red_fighter_id ft \<in> set ids \<or> ft_blue_fighter_id ft \<in> set ids)"
  by (auto simp: history_join_def)

lemma history_query_set: "set (history_query ids d) = set (history_join ids d)"
  by (simp add: history_query_def)

lemma history_query_sorted:
  "sorted_wrt (\<lambda>a b. e_date (fst (snd b)) \<le> e_date (fst (snd a))) (history_query ids d)"
proof -
  have key: "(\<lambda>(f, e, fa, fb). - e_date e) = (\<lambda>j. - e_date (fst (snd j)))"
    by (auto simp: fun_eq_iff)
  have "sorted (map (\<lambda>j. - e_date (fst (snd j))) (history_query ids d))"
    unfolding history_query_def key by (rule sorted_sort_key)
  then show ?thesis by (simp add: sorted_map)
qed

text \<open>
  C5, as amended. Every returned record belongs to one row of the joined query, in the
  query's order. A winner is recorded when \<^verbatim>\<open>winner_id\<close> is neither NULL nor the empty
  text. Its result is relative to the red corner when the red corner's fighter
  matched the name, and to the blue corner otherwise (that fighter then matched): "Win"
  when the recorded winner is that fighter, "Loss" when another winner is recorded, the
  method when no winner is recorded and the method is "Draw" or "No Contest", "Pending"
  otherwise; the opponent is the name of the other corner. The records are in descending
  order of the event date.
\<close>

theorem C5_history_results:
  assumes "truthy fighterName"
    and "ids = map f_fighter_id (matched_fighters like d fighterName)" and "ids \<noteq> []"
    and "fighter_history like d fighterName = Success payload"
  shows "list_all2
      (\<lambda>j r. case j of (ft, e, fa, fb) \<Rightarrow>
         f_fighter_id fa = ft_red_fighter_id ft \<and> f_fighter_id fb = ft_blue_fighter_id ft \<and>
         e_event_id e = ft_event_id ft \<and> h_EventDate r = e_date e \<and>
         (ft_red_fighter_id ft \<in> set ids \<longrightarrow>
            h_Result r = claimed_result (ft_red_fighter_id ft) ft \<and> h_Opponent r = f_name fb) \<and>
         (ft_red_fighter_id ft \<notin> set ids \<longrightarrow>
            ft_blue_fighter_id ft \<in> set ids \<and>
            h_Result r = claimed_result (ft_blue_fighter_id ft) ft \<and> h_Opponent r = f_name fa))
      (history_query ids d) (hp_data payload)
    \<and> sorted_wrt (\<lambda>a b. h_EventDate b \<le> h_EventDate a) (hp_data payload)"
proof -
  have found: "matched_fighters like d fighterName \<noteq> []" using assms(2,3) by auto
  have data: "hp_data payload = map (process_fight ids) (history_query ids d)"
    using assms(1,2,4) found by (auto simp: fighter_history_def Let_def)
  have rows: "list_all2
      (\<lambda>j r. case j of (ft, e, fa, fb) \<Rightarrow>
         f_fighter_id fa = ft_red_fighter_id ft \<and> f_fighter_id fb = ft_blue_fighter_id ft \<and>
         e_event_id e = ft_event_id ft \<and> h_EventDate r = e_date e \<and>
         (ft_red_fighter_id ft \<in> set ids \<longrightarrow>
            h_Result r = claimed_result (ft_red_fighter_id ft) ft \<and> h_Opponent r = f_name fb) \<and>
         (ft_red_fighter_id ft \<notin> set ids \<longrightarrow>
            ft_blue_fighter_id ft \<in> set ids \<and>
            h_Result r = claimed_result (ft_blue_fighter_id ft) ft \<and> h_Opponent r = f_name fa))
      (history_query ids d) (map (process_fight ids) (history_query ids d))"
    unfolding list_all2_map2
  proof (rule list.rel_refl_strong)
    fix j assume "j \<in> set (history_query ids d)"
    then have j: "j \<in> set (history_join ids d)" by (simp add: history_query_set)
    obtain ft e fa fb where eq: "j = (ft, e, fa, fb)" by (cases j) auto
    from j eq history_join_row[of ft e fa fb ids d]
    have "f_fighter_id fa = ft_red_fighter_id ft \<and> f_fighter_id fb = ft_blue_fighter_id ft \<and>
      e_event_id e = ft_event_id ft \<and>
      (ft_red_fighter_id ft \<in> set ids \<or> ft_blue_fighter_id ft \<in> set ids)"
      by metis
    then show "case j of (ft, e, fa, fb) \<Rightarrow>
         f_fighter_id fa = ft_red_fighter_id ft \<and> f_fighter_id fb = ft_blue_fighter_id ft \<and>
         e_event_id e = ft_event_id ft \<and> h_EventDate (process_fight ids j) = e_date e \<and>
         (ft_red_fighter_id ft \<in> set ids \<longrightarrow>
            h_Result (process_fight ids j) = claimed_result (ft_red_fighter_id ft) ft \<and>
            h_Opponent (process_fight ids j) = f_name fb) \<and>
         (ft_red_fighter_id ft \<notin> set ids \<longrightarrow>
            ft_blue_fighter_id ft \<in> set ids \<and>
            h_Result (process_fight ids j) = claimed_result (ft_blue_fighter_id ft) ft \<and>
            h_Opponent (process_fight ids j) = f_name fa)"
      unfolding eq by (auto simp: process_fight_result process_fight_fields)
  qed
  have "sorted_wrt (\<lambda>a b. h_EventDate (process_fight ids b) \<le> h_EventDate (process_fight ids a))
          (history_query ids d)"
    using history_query_sorted[of ids d]
    by (rule sorted_wrt_mono_rel[rotated]) (auto simp: process_fight_fields split: prod.splits)
  then have srt: "sorted_wrt (\<lambda>a b. h_EventDate b \<le> h_EventDate a)
      (map (process_fight ids) (history_query ids d))"
    by (simp add: sorted_wrt_map)
  from rows srt show ?thesis unfolding data by simp
qed

lemma ex_silva_eval:
  "fighter_history ex_like ex_db (Str ''Silva'') =
     Success \<lparr>hp_data = ex_history_silva, hp_message = None,
              hp_fighters = Some [(''fa'', ''Anderson Silva''), (''fb'', ''Erick Silva'')]\<rparr>"
  by code_simp

lemma ex_silva_ids:
  "[''fa'', ''fb''] = map f_fighter_id (matched_fighters ex_like ex_db (Str ''Silva''))"
  by code_simp

theorem C5_history_results_witness:
  "truthy (Str ''Silva'') \<and>
   map f_fighter_id (matched_fighters ex_like ex_db (Str ''Silva'')) = [''fa'', ''fb''] \<and>
   fighter_history ex_like ex_db (Str ''Silva'') =
     Success \<lparr>hp_data = ex_history_silva, hp_message = None,
              hp_fighters = Some [(''fa'', ''Anderson Silva''), (''fb'', ''Erick Silva'')]\<rparr> \<and>
   map (\<lambda>j. (ft_fight_id (fst j), ft_red_fighter_id (fst j), ft_blue_fighter_id (fst j),
              ft_winner_id (fst j))) (history_query [''fa'', ''fb''] ex_db) =
     [(''x1'', ''fa'', ''fb'', Some ''fb''), (''x2'', ''fc'', ''fa'', Some ''fc'')] \<and>
   map h_Result ex_history_silva = [Str ''Loss'', Str ''Loss''] \<and>
   map h_Opponent ex_history_silva = [''Erick Silva'', ''Jon Jones''] \<and>
   map h_EventDate ex_history_silva = [20, 10] \<and>
   sorted_wrt (\<lambda>a b. h_EventDate b \<le> h_EventDate a) ex_history_silva"
proof -
  have t: "truthy (Str ''Silva'')" by simp
  have ne: "[''fa'', ''fb''] \<noteq> []" by simp
  note inst = C5_history_results [OF t ex_silva_ids ne ex_silva_eval]
  then have srt: "sorted_wrt (\<lambda>a b. h_EventDate b \<le> h_EventDate a) ex_history_silva" by simp
  have q: "map (\<lambda>j. (ft_fight_id (fst j), ft_red_fighter_id (fst j), ft_blue_fighter_id (fst j),
              ft_winner_id (fst j))) (history_query [''fa'', ''fb''] ex_db) =
     [(''x1'', ''fa'', ''fb'', Some ''fb''), (''x2'', ''fc'', ''fa'', Some ''fc'')]"
    by code_simp
  have r: "map h_Result ex_history_silva = [Str ''Loss'', Str ''Loss''] \<and>
   map h_Opponent ex_history_silva = [''Erick Silva'', ''Jon Jones''] \<and>
   map h_EventDate ex_history_silva = [20, 10]"
    by (simp add: ex_history_silva_def)
  from t ex_silva_ids[symmetric] ex_silva_eval q r srt show ?thesis by simp
qed

text \<open>
  Both fighters of fight x1 match "Silva". The fighter in its blue corner won it, and the
  one record returned for x1 is a "Loss" against him: no returned record is a "Win".
\<close>

theorem C5_history_results_counterexample:
  "fighter_history ex_like ex_db (Str ''Silva'') =
     Success \<lparr>hp_data = ex_history_silva, hp_message = None,
              hp_fighters = Some [(''fa'', ''Anderson Silva''), (''fb'', ''Erick Silva'')]\<rparr> \<and>
   ex_fight_x1 \<in> set (fights ex_db) \<and>
   ft_red_fighter_id ex_fight_x1 = ''fa'' \<and> ft_blue_fighter_id ex_fight_x1 = ''fb'' \<and>
   claimed_result ''fb'' ex_fight_x1 = Str ''Win'' \<and>
   list_all (\<lambda>r. h_Result r \<noteq> Str ''Win'') ex_history_silva \<and>
   h_Result (hd ex_history_silva) = Str ''Loss'' \<and>
   h_Opponent (hd ex_history_silva) = ''Erick Silva''"
  by code_simp

section \<open>Memberships stay unique\<close>

lemma digits: "map digit [0..<10] = ''0123456789''"
  by (simp add: digit_def upt_rec)

lemma digit_inj: "a < 10 \<Longrightarrow> b < 10 \<Longrightarrow> digit a = digit b \<Longrightarrow> a = b"
proof -
  assume "a < 10" "b < 10" "digit a = digit b"
  moreover have "distinct (map digit [0..<10])" unfolding digits by simp
  then have "\<forall>i<10. \<forall>j<10. i \<noteq> j \<longrightarrow> digit i \<noteq> digit j"
    by (simp add: distinct_conv_nth del: upt_Suc)
  ultimately show "a = b" by blast
qed

lemma dec_small: "n < 10 \<Longrightarrow> dec n = [digit n]"
  by (subst dec.simps) simp

lemma dec_large: "\<not> n < 10 \<Longrightarrow> dec n = dec (n div 10) @ [digit (n mod 10)]"
  by (subst dec.simps) simp

lemma dec_nonempty: "dec n \<noteq> []"
  by (cases "n < 10") (simp_all add: dec_small dec_large)

lemma dec_length: "(length (dec n) = Suc 0) = (n < 10)"
proof (cases "n < 10")
  case True
  then show ?thesis by (simp add: dec_small)
next
  case False
  have "length (dec (n div 10)) \<noteq> 0" using dec_nonempty by simp
  with False show ?thesis by (simp add: dec_large)
qed

lemma dec_inj: "dec m = dec n \<Longrightarrow> m = n"
proof (induction m arbitrary: n rule: dec.induct)
  case (1 m)
  show ?case
  proof (cases "m < 10")
    case True
    with "1.prems" have "length (dec n) = Suc 0" by (simp add: dec_length[symmetric])
    then have n: "n < 10" by (simp add: dec_length)
    with True "1.prems" have "digit m = digit n" by (simp add: dec_small)
    with True n show ?thesis by (rule digit_inj)
  next
    case False
    with "1.prems" have "length (dec n) \<noteq> Suc 0" by (metis dec_length)
    then have n: "\<not> n < 10" by (simp add: dec_length)
    from False n "1.prems" have eq: "dec (m div 10) = dec (n div 10)"
      and dg: "digit (m mod 10) = digit (n mod 10)"
      by (simp_all add: dec_large)
    from "1.IH"[OF False eq] have q: "m div 10 = n div 10" .
    have "m mod 10 = n mod 10" using dg by (intro digit_inj) simp_all
    with q show ?thesis by (metis div_mult_mod_eq)
  qed
qed

lemma dec_fresh: "dec n \<notin> set (map dec [0..<n])"
  using dec_inj by fastforce

lemma issued_mono: "s \<in> set (map dec [0..<n]) \<Longrightarrow> s \<in> set (map dec [0..<Suc n])"
  by auto

lemma register_frame:
  "leagues (snd (register env d body)) = leagues d \<and>
   memberships (snd (register env d body)) = memberships d \<and>
   next_league_id (snd (register env d body)) = next_league_id d"
  by (auto simp: register_def Let_def register_failure_def split: sum.splits option.splits)

lemma save_loop_frame:
  "save_loop rejects u l e items d s er = (ex, d', s', er') \<Longrightarrow>
   leagues d' = leagues d \<and> memberships d' = memberships d \<and> next_league_id d' = next_league_id d"
proof -
  assume "save_loop rejects u l e items d s er = (ex, d', s', er')"
  from save_loop_inv[OF this]
  have "d' = d\<lparr>picks := picks d', next_pick_id := next_pick_id d'\<rparr>" by blast
  then have "leagues d' = leagues (d\<lparr>picks := picks d', next_pick_id := next_pick_id d'\<rparr>)"
    "memberships d' = memberships (d\<lparr>picks := picks d', next_pick_id := next_pick_id d'\<rparr>)"
    "next_league_id d' = next_league_id (d\<lparr>picks := picks d', next_pick_id := next_pick_id d'\<rparr>)"
    by simp_all
  then show ?thesis by simp
qed

lemma save_picks_frame:
  "leagues (snd (save_picks rejects d body)) = leagues d \<and>
   memberships (snd (save_picks rejects d body)) = memberships d \<and>
   next_league_id (snd (save_picks rejects d body)) = next_league_id d"
proof (cases "\<not> truthy (sp_userId body) \<or> \<not> truthy (sp_leagueId body) \<or>
         \<not> truthy (sp_eventId body) \<or> \<not> truthy (sp_picks body)")
  case True
  then show ?thesis by (auto simp: save_picks_def)
next
  case False
  let ?u = "js_String (sp_userId body)" and ?l = "js_String (sp_leagueId body)"
    and ?e = "js_String (sp_eventId body)"
  let ?d1 = "delete_picks ?u ?l ?e d"
  have d1: "leagues ?d1 = leagues d \<and> memberships ?d1 = memberships d \<and>
      next_league_id ?d1 = next_league_id d"
    by (simp add: delete_picks_def)
  show ?thesis
  proof (cases "js_iter (sp_picks body)")
    case (Inl ex)
    with False d1 show ?thesis by (simp add: save_picks_def Let_def)
  next
    case (Inr items)
    obtain ex d2 s er where L: "save_loop rejects ?u ?l ?e items ?d1 0 0 = (ex, d2, s, er)"
      by (metis prod_cases4)
    from save_loop_frame[OF L] d1
    have d2: "leagues d2 = leagues d \<and> memberships d2 = memberships d \<and>
      next_league_id d2 = next_league_id d" by simp
    from False Inr L have "snd (save_picks rejects d body) = d2"
      by (auto simp: save_picks_def Let_def split: option.splits)
    with d2 show ?thesis by simp
  qed
qed

lemma delete_league_frame:
  "set (leagues (snd (delete_league d leagueId))) \<subseteq> set (leagues d) \<and>
   memberships (snd (delete_league d leagueId)) = memberships d \<and>
   next_league_id (snd (delete_league d leagueId)) = next_league_id d"
  by (auto simp: delete_league_def Let_def)

lemma issued_step:
  "league_keys_issued d \<Longrightarrow> set (leagues d') \<subseteq> set (leagues d) \<Longrightarrow>
   memberships d' = memberships d \<Longrightarrow> next_league_id d' = next_league_id d \<Longrightarrow>
   league_keys_issued d'"
  by (auto simp: league_keys_issued_def list_all_iff)

lemma unique_step:
  "membership_unique d \<Longrightarrow> memberships d' = memberships d \<Longrightarrow> membership_unique d'"
  by (simp add: membership_unique_def)

lemma join_league_cases:
  "snd (join_league env d body) = d \<or>
   (\<exists>league others.
      filter (\<lambda>l. l_LeagueCode l = bind env (jl_leagueCode body)) (leagues d) = league # others \<and>
      (\<forall>m\<in>set (memberships d).
         \<not> (m_UserID m = bind env (jl_userId body) \<and> m_LeagueID m = l_LeagueID league)) \<and>
      snd (join_league env d body) =
        d\<lparr>memberships := memberships d @
            [\<lparr>m_UserID = bind env (jl_userId body), m_LeagueID = l_LeagueID league,
              m_Role = ''Member''\<rparr>]\<rparr>)"
  by (auto simp: join_league_def Let_def filter_empty_conv split: list.splits option.splits)

lemma join_league_inv:
  assumes "membership_unique d" and "league_keys_issued d"
  shows "membership_unique (snd (join_league env d body)) \<and>
         league_keys_issued (snd (join_league env d body))"
proof -
  from join_league_cases[of env d body] show ?thesis
  proof
    assume "snd (join_league env d body) = d"
    with assms show ?thesis by simp
  next
    assume "\<exists>league others.
      filter (\<lambda>l. l_LeagueCode l = bind env (jl_leagueCode body)) (leagues d) = league # others \<and>
      (\<forall>m\<in>set (memberships d).
         \<not> (m_UserID m = bind env (jl_userId body) \<and> m_LeagueID m = l_LeagueID league)) \<and>
      snd (join_league env d body) =
        d\<lparr>memberships := memberships d @
            [\<lparr>m_UserID = bind env (jl_userId body), m_LeagueID = l_LeagueID league,
              m_Role = ''Member''\<rparr>]\<rparr>"
    then obtain league others where
      f: "filter (\<lambda>l. l_LeagueCode l = bind env (jl_leagueCode body)) (leagues d) = league # others"
      and n: "\<forall>m\<in>set (memberships d).
         \<not> (m_UserID m = bind env (jl_userId body) \<and> m_LeagueID m = l_LeagueID league)"
      and r: "snd (join_league env d body) =
        d\<lparr>memberships := memberships d @
            [\<lparr>m_UserID = bind env (jl_userId body), m_LeagueID = l_LeagueID league,
              m_Role = ''Member''\<rparr>]\<rparr>"
      by blast
    from f have "league \<in> set (filter (\<lambda>l. l_LeagueCode l = bind env (jl_leagueCode body)) (leagues d))"
      by simp
    then have lg: "league \<in> set (leagues d)" by simp
    have u: "membership_unique (snd (join_league env d body))"
      using assms(1) n unfolding r membership_unique_def by auto
    have i: "league_keys_issued (snd (join_league env d body))"
      using assms(2) lg unfolding r league_keys_issued_def by (auto simp: list_all_iff)
    from u i show ?thesis by simp
  qed
qed

lemma create_league_cases:
  assumes "row = \<lparr>l_LeagueID = dec (next_league_id d), l_Name = bind env (cl_name body),
                   l_OwnerID = bind env (cl_ownerID body),
                   l_ScoringRules = (if truthy (cl_scoringRules body)
                                     then Some (bind env (cl_scoringRules body)) else None),
                   l_LeagueCode = bind env (js_or (cl_leagueCode body) (Str (random_code env)))\<rparr>"
  shows "snd (create_league env d body) = d \<or>
       snd (create_league env d body) =
         d\<lparr>leagues := leagues d @ [row], next_league_id := Suc (next_league_id d)\<rparr> \<or>
       snd (create_league env d body) =
         d\<lparr>leagues := leagues d @ [row], next_league_id := Suc (next_league_id d),
           memberships := memberships d @
             [\<lparr>m_UserID = bind env (cl_ownerID body), m_LeagueID = dec (next_league_id d),
               m_Role = ''Owner''\<rparr>]\<rparr>"
  unfolding assms
  by (simp add: create_league_def Let_def create_league_failure_def split: option.splits)

lemma create_league_inv:
  assumes "membership_unique d" and "league_keys_issued d"
  shows "membership_unique (snd (create_league env d body)) \<and>
         league_keys_issued (snd (create_league env d body))"
proof -
  define row where "row = \<lparr>l_LeagueID = dec (next_league_id d), l_Name = bind env (cl_name body),
                   l_OwnerID = bind env (cl_ownerID body),
                   l_ScoringRules = (if truthy (cl_scoringRules body)
                                     then Some (bind env (cl_scoringRules body)) else None),
                   l_LeagueCode = bind env (js_or (cl_leagueCode body) (Str (random_code env)))\<rparr>"
  have k: "l_LeagueID row = dec (next_league_id d)" by (simp add: row_def)
  have fresh: "\<forall>m\<in>set (memberships d). m_LeagueID m \<noteq> dec (next_league_id d)"
    using assms(2) dec_fresh[of "next_league_id d"]
    by (auto simp: league_keys_issued_def list_all_iff simp del: set_map set_upt)
  have grow: "s \<in> set (map dec [0..<next_league_id d]) \<Longrightarrow>
      s \<in> set (map dec [0..<Suc (next_league_id d)])" for s
    by (rule issued_mono)
  have new: "dec (next_league_id d) \<in> set (map dec [0..<Suc (next_league_id d)])" by simp
  from create_league_cases[OF row_def, of ] consider
      (same) "snd (create_league env d body) = d"
    | (league) "snd (create_league env d body) =
         d\<lparr>leagues := leagues d @ [row], next_league_id := Suc (next_league_id d)\<rparr>"
    | (both) "snd (create_league env d body) =
         d\<lparr>leagues := leagues d @ [row], next_league_id := Suc (next_league_id d),
           memberships := memberships d @
             [\<lparr>m_UserID = bind env (cl_ownerID body), m_LeagueID = dec (next_league_id d),
               m_Role = ''Owner''\<rparr>]\<rparr>"
    by blast
  then show ?thesis
  proof cases
    case same
    with assms show ?thesis by simp
  next
    case league
    have u: "membership_unique (snd (create_league env d body))"
      using assms(1) unfolding league membership_unique_def by simp
    have i: "league_keys_issued (snd (create_league env d body))"
      using assms(2) k grow new unfolding league league_keys_issued_def
      by (auto simp: list_all_iff simp del: set_map set_upt upt_Suc)
    from u i show ?thesis by simp
  next
    case both
    have u: "membership_unique (snd (create_league env d body))"
      using assms(1) fresh unfolding both membership_unique_def by auto
    have i: "league_keys_issued (snd (create_league env d body))"
      using assms(2) k grow new unfolding both league_keys_issued_def
      by (auto simp: list_all_iff simp del: set_map set_upt upt_Suc)
    from u i show ?thesis by simp
  qed
qed

lemma exec_inv:
  assumes "membership_unique d" and "league_keys_issued d"
  shows "membership_unique (exec env rq d) \<and> league_keys_issued (exec env rq d)"
proof (cases rq)
  case (Register body)
  with assms register_frame[of env d body] show ?thesis
    by (auto intro: unique_step issued_step)
next
  case (CreateLeague body)
  with create_league_inv[OF assms] show ?thesis by simp
next
  case (DeleteLeague leagueId)
  with assms delete_league_frame[of d leagueId] show ?thesis
    by (auto intro: unique_step issued_step)
next
  case (JoinLeague body)
  with join_league_inv[OF assms] show ?thesis by simp
next
  case (SavePicks body)
  with assms save_picks_frame[of "pick_rejected env" d body] show ?thesis
    by (auto intro: unique_step issued_step)
qed

lemma run_inv:
  "membership_unique d \<Longrightarrow> league_keys_issued d \<Longrightarrow>
   membership_unique (run steps d) \<and> league_keys_issued (run steps d)"
proof (induction steps arbitrary: d)
  case Nil
  then show ?case by simp
next
  case (Cons a steps)
  obtain env rq where a: "a = (env, rq)" by (cases a) auto
  from exec_inv[OF Cons.prems, of env rq] Cons.IH[of "exec env rq d"] a
  show ?case by simp
qed

text \<open>
  C9. When no user has two memberships in one league (and the league keys in use were
  issued by AUTO_INCREMENT), the same holds after every sequence of writing requests:
  registrations, league creations, league deletions, joins and pick submissions. A join
  by a user who already has a membership in the league that the code identifies is
  refused with "You are already a member of this league" and leaves the state as it was.
\<close>

theorem C9_membership_unique:
  assumes "membership_unique d" and "league_keys_issued d"
  shows "membership_unique (run steps d)
     \<and> (truthy (jl_leagueCode body) \<and> truthy (jl_userId body) \<and>
        filter (\<lambda>l. l_LeagueCode l = bind env (jl_leagueCode body)) (leagues d) = league # others \<and>
        (\<exists>m\<in>set (memberships d).
           m_UserID m = bind env (jl_userId body) \<and> m_LeagueID m = l_LeagueID league)
        \<longrightarrow> join_league env d body =
              (Failure 400 (Msg ''You are already a member of this league''), d))"
proof -
  have pos: "(0 < length (filter P xs)) = (\<exists>x\<in>set xs. P x)" for P :: "membership_row \<Rightarrow> bool" and xs
    by (simp add: filter_empty_conv)
  have "truthy (jl_leagueCode body) \<and> truthy (jl_userId body) \<and>
        filter (\<lambda>l. l_LeagueCode l = bind env (jl_leagueCode body)) (leagues d) = league # others \<and>
        (\<exists>m\<in>set (memberships d).
           m_UserID m = bind env (jl_userId body) \<and> m_LeagueID m = l_LeagueID league)
        \<longrightarrow> join_league env d body =
              (Failure 400 (Msg ''You are already a member of this league''), d)"
    unfolding join_league_def Let_def pos by auto
  with run_inv[OF assms, of steps] show ?thesis by simp
qed

lemma ex_run:
  "map (\<lambda>m. (m_UserID m, m_LeagueID m)) (memberships (run ex_steps ex_db)) =
     [(''1'', ''1''), (''2'', ''1''), (''2'', ''2''), (''3'', ''1''), (''3'', ''2''), (''3'', ''3''),
      (''1'', ''3'')]"
  by code_simp

theorem C9_membership_unique_witness:
  "membership_unique ex_db \<and> league_keys_issued ex_db \<and>
   map (\<lambda>m. (m_UserID m, m_LeagueID m)) (memberships (run ex_steps ex_db)) =
     [(''1'', ''1''), (''2'', ''1''), (''2'', ''2''), (''3'', ''1''), (''3'', ''2''), (''3'', ''3''),
      (''1'', ''3'')] \<and>
   membership_unique (run ex_steps ex_db) \<and>
   truthy (jl_leagueCode ex_join_again) \<and> truthy (jl_userId ex_join_again) \<and>
   map l_LeagueID (filter (\<lambda>l. l_LeagueCode l = bind ex_env (jl_leagueCode ex_join_again))
                          (leagues ex_db)) = [''1''] \<and>
   (\<exists>m\<in>set (memberships ex_db). m_UserID m = bind ex_env (jl_userId ex_join_again) \<and>
      m_LeagueID m = ''1'') \<and>
   join_league ex_env ex_db ex_join_again =
     (Failure 400 (Msg ''You are already a member of this league''), ex_db)"
proof -
  have u: "membership_unique ex_db" by code_simp
  have i: "league_keys_issued ex_db" by code_simp
  have t: "truthy (jl_leagueCode ex_join_again)" "truthy (jl_userId ex_join_again)"
    by (simp_all add: ex_join_again_def)
  have f: "filter (\<lambda>l. l_LeagueCode l = bind ex_env (jl_leagueCode ex_join_again)) (leagues ex_db) =
      \<lparr>l_LeagueID = ''1'', l_Name = ''Octagon'', l_OwnerID = ''1'', l_ScoringRules = None,
        l_LeagueCode = ''CODE1''\<rparr> # []"
    by code_simp
  have m: "\<exists>m\<in>set (memberships ex_db). m_UserID m = bind ex_env (jl_userId ex_join_again) \<and>
      m_LeagueID m = ''1''"
    unfolding Bex_set[symmetric] by code_simp
  note inst = C9_membership_unique [OF u i, of ex_steps ex_join_again ex_env
      "\<lparr>l_LeagueID = ''1'', l_Name = ''Octagon'', l_OwnerID = ''1'', l_ScoringRules = None,
        l_LeagueCode = ''CODE1''\<rparr>" "[]"]
  from inst have a: "membership_unique (run ex_steps ex_db)" by simp
  from inst t f m have b: "join_league ex_env ex_db ex_join_again =
     (Failure 400 (Msg ''You are already a member of this league''), ex_db)" by simp
  from u i ex_run a t f m b show ?thesis by simp
qed

section \<open>The leaderboard\<close>

lemma join_set:
  "(u, m, p) \<in> set (leaderboard_join L d) \<longleftrightarrow>
     u \<in> set (users d) \<and> m \<in> set (memberships d) \<and> u_UserID u = m_UserID m \<and> m_LeagueID m = L \<and>
     p \<in> set (case filter (\<lambda>p. u_UserID u = p_UserID p \<and> p_LeagueID p = L) (picks d) of
               [] \<Rightarrow> [None] | ps \<Rightarrow> map Some ps)"
  by (auto simp: leaderboard_join_def)

lemma join_keys:
  "set (map (\<lambda>(u, m, p). group_key u) (leaderboard_join L d)) =
     group_key ` {u \<in> set (users d). is_member (u_UserID u) L d}"
proof -
  have ne: "(case filter (\<lambda>p. u_UserID u = p_UserID p \<and> p_LeagueID p = L) (picks d) of
               [] \<Rightarrow> [None] | ps \<Rightarrow> map Some ps) \<noteq> []" for u
    by (simp split: list.splits)
  show ?thesis
  proof (rule set_eqI, rule iffI)
    fix k assume "k \<in> set (map (\<lambda>(u, m, p). group_key u) (leaderboard_join L d))"
    then obtain u m p where r: "(u, m, p) \<in> set (leaderboard_join L d)" and k: "k = group_key u"
      by auto
    from r have f: "u \<in> set (users d) \<and> m \<in> set (memberships d) \<and> m_UserID m = u_UserID u \<and>
        m_LeagueID m = L"
      unfolding join_set by simp
    then have "is_member (u_UserID u) L d" unfolding is_member_def by blast
    with f k show "k \<in> group_key ` {u \<in> set (users d). is_member (u_UserID u) L d}"
      by blast
  next
    fix k assume "k \<in> group_key ` {u \<in> set (users d). is_member (u_UserID u) L d}"
    then obtain u m where u: "u \<in> set (users d)" "k = group_key u" "m \<in> set (memberships d)"
      "m_UserID m = u_UserID u" "m_LeagueID m = L"
      by (auto simp: is_member_def)
    have "\<exists>p. p \<in> set xs" if "xs \<noteq> []" for xs :: "pick_row option list"
      using that by (cases xs) auto
    from this[OF ne[of u]] obtain p where "p \<in> set (case filter (\<lambda>p. u_UserID u = p_UserID p \<and> p_LeagueID p = L) (picks d) of
               [] \<Rightarrow> [None] | ps \<Rightarrow> map Some ps)"
      by blast
    with u have "(u, m, p) \<in> set (leaderboard_join L d)" by (simp add: join_set)
    with u(2) show "k \<in> set (map (\<lambda>(u, m, p). group_key u) (leaderboard_join L d))"
      by force
  qed
qed

lemma picks_total:
  "sum_list (concat (map (\<lambda>p. case p of None \<Rightarrow> [] | Some q \<Rightarrow> [p_PointsEarned q])
      (case filter (\<lambda>p. u_UserID u = p_UserID p \<and> p_LeagueID p = L) (picks d) of
               [] \<Rightarrow> [None] | ps \<Rightarrow> map Some ps))) = league_points (u_UserID u) L d"
proof -
  have c: "(\<lambda>p. u_UserID u = p_UserID p \<and> p_LeagueID p = L) =
           (\<lambda>p. p_UserID p = u_UserID u \<and> p_LeagueID p = L)" by auto
  have s: "sum_list (concat (map (\<lambda>p. case p of None \<Rightarrow> [] | Some q \<Rightarrow> [p_PointsEarned q])
             (map Some qs))) = sum_list (map p_PointsEarned qs)" for qs
    by (induction qs) simp_all
  show ?thesis
    unfolding league_points_def c
    by (cases "filter (\<lambda>p. p_UserID p = u_UserID u \<and> p_LeagueID p = L) (picks d)")
       (simp_all add: s[of "_ # _", simplified])
qed

lemma join_alt:
  "leaderboard_join L d =
     concat (map (\<lambda>u. concat (map (\<lambda>m.
        if u_UserID u = m_UserID m \<and> m_LeagueID m = L
        then map (\<lambda>p. (u, m, p))
               (case filter (\<lambda>p. u_UserID u = p_UserID p \<and> p_LeagueID p = L) (picks d) of
                  [] \<Rightarrow> [None] | ps \<Rightarrow> map Some ps)
        else []) (memberships d))) (users d))"
proof -
  have inner: "concat (map (\<lambda>p. if c then [(u, m, p)] else []) ps) =
      (if c then map (\<lambda>p. (u, m, p)) ps else [])" for c and u :: user_row and m :: membership_row
      and ps :: "pick_row option list"
    by (induction ps) auto
  show ?thesis
    unfolding leaderboard_join_def inner
    by (intro arg_cong[where f=concat] map_cong refl) auto
qed

lemma row_total:
  "sum_list (concat (map (\<lambda>x. case x of (u, m, None) \<Rightarrow> []
                               | (u, m, Some p) \<Rightarrow> if group_key u = k then [p_PointsEarned p] else [])
         (map (\<lambda>p. (u, m, p)) ps))) =
   (if group_key u = k
    then sum_list (concat (map (\<lambda>p. case p of None \<Rightarrow> [] | Some q \<Rightarrow> [p_PointsEarned q]) ps))
    else 0)"
  by (induction ps) (auto split: option.splits)

lemma user_total:
  fixes ms :: "membership_row list" and u :: user_row
  shows "sum_list (concat (map (\<lambda>x. case x of (u, m, None) \<Rightarrow> []
                               | (u, m, Some p) \<Rightarrow> if group_key u = k then [p_PointsEarned p] else [])
      (concat (map (\<lambda>m.
        if u_UserID u = m_UserID m \<and> m_LeagueID m = L
        then map (\<lambda>p. (u, m, p))
               (case filter (\<lambda>p. u_UserID u = p_UserID p \<and> p_LeagueID p = L) (picks d) of
                  [] \<Rightarrow> [None] | ps \<Rightarrow> map Some ps)
        else []) ms)))) =
   (if group_key u = k
    then int (length (filter (\<lambda>m. u_UserID u = m_UserID m \<and> m_LeagueID m = L) ms)) *
         league_points (u_UserID u) L d
    else 0)"
proof -
  define ps where "ps = (case filter (\<lambda>p. u_UserID u = p_UserID p \<and> p_LeagueID p = L) (picks d) of
                  [] \<Rightarrow> [None] | ps \<Rightarrow> map Some ps)"
  define g where "g = (\<lambda>x :: user_row \<times> membership_row \<times> pick_row option.
      case x of (u, m, None) \<Rightarrow> []
       | (u, m, Some p) \<Rightarrow> if group_key u = k then [p_PointsEarned p] else [])"
  have pt: "sum_list (concat (map (\<lambda>p. case p of None \<Rightarrow> [] | Some q \<Rightarrow> [p_PointsEarned q]) ps))
      = league_points (u_UserID u) L d"
    unfolding ps_def by (rule picks_total)
  have one: "sum_list (concat (map g (map (\<lambda>p. (u, m, p)) ps))) =
      (if group_key u = k then league_points (u_UserID u) L d else 0)" for m
    unfolding g_def row_total pt ..
  have "sum_list (concat (map g (concat (map (\<lambda>m.
        if u_UserID u = m_UserID m \<and> m_LeagueID m = L then map (\<lambda>p. (u, m, p)) ps else []) ms)))) =
   (if group_key u = k
    then int (length (filter (\<lambda>m. u_UserID u = m_UserID m \<and> m_LeagueID m = L) ms)) *
         league_points (u_UserID u) L d
    else 0)"
  proof (induction ms)
    case Nil
    then show ?case by simp
  next
    case (Cons m ms)
    show ?case
    proof (cases "u_UserID u = m_UserID m \<and> m_LeagueID m = L")
      case True
      then show ?thesis using Cons.IH one[of m] by (simp add: algebra_simps del: map_map)
    next
      case False
      then show ?thesis using Cons.IH by auto
    qed
  qed
  then show ?thesis unfolding ps_def g_def .
qed

lemma sum_select:
  fixes F :: "'a \<Rightarrow> int"
  assumes "distinct (map f xs)" and "x0 \<in> set xs"
    and "\<And>x. x \<in> set xs \<Longrightarrow> P x \<longleftrightarrow> f x = f x0"
  shows "sum_list (map (\<lambda>x. if P x then F x else 0) xs) = F x0"
  using assms
proof (induction xs)
  case Nil
  then show ?case by simp
next
  case (Cons a xs)
  show ?case
  proof (cases "a = x0")
    case True
    have "\<And>x. x \<in> set xs \<Longrightarrow> \<not> P x"
    proof -
      fix x assume x: "x \<in> set xs"
      from Cons.prems(1) True have "f x0 \<notin> f ` set xs" by simp
      with x have "f x \<noteq> f x0" by (metis imageI)
      with Cons.prems(3)[of x] x show "\<not> P x" by simp
    qed
    then have "sum_list (map (\<lambda>x. if P x then F x else 0) xs) = 0"
      by (induction xs) auto
    moreover have "P a" using Cons.prems(3)[of a] True by simp
    ultimately show ?thesis using True by simp
  next
    case False
    with Cons.prems(2) have in_xs: "x0 \<in> set xs" by simp
    from Cons.prems(1) have "f a \<notin> f ` set xs" by simp
    with in_xs have "f a \<noteq> f x0" by (metis imageI)
    with Cons.prems(3)[of a] have "\<not> P a" by simp
    moreover have "sum_list (map (\<lambda>x. if P x then F x else 0) xs) = F x0"
      using Cons.IH in_xs Cons.prems(1,3) by simp
    ultimately show ?thesis by simp
  qed
qed

lemma count_one:
  "distinct (map f xs) \<Longrightarrow> a \<in> f ` set xs \<Longrightarrow> length (filter (\<lambda>x. f x = a) xs) = 1"
proof (induction xs)
  case Nil
  then show ?case by simp
next
  case (Cons x xs)
  show ?case
  proof (cases "f x = a")
    case True
    from Cons.prems(1) have "f x \<notin> f ` set xs" by simp
    with True have "\<forall>y\<in>set xs. f y \<noteq> a" by (metis imageI)
    then have "filter (\<lambda>x. f x = a) xs = []" by (simp add: filter_empty_conv)
    with True show ?thesis by simp
  next
    case False
    with Cons show ?thesis by auto
  qed
qed

lemma member_count:
  assumes "membership_unique d" and "is_member userId L d"
  shows "length (filter (\<lambda>m. userId = m_UserID m \<and> m_LeagueID m = L) (memberships d)) = 1"
proof -
  have "(userId, L) \<in> (\<lambda>m. (m_UserID m, m_LeagueID m)) ` set (memberships d)"
    using assms(2) unfolding is_member_def by force
  from count_one[OF assms(1)[unfolded membership_unique_def] this]
  have "length (filter (\<lambda>m. (m_UserID m, m_LeagueID m) = (userId, L)) (memberships d)) = 1" .
  moreover have "filter (\<lambda>m. (m_UserID m, m_LeagueID m) = (userId, L)) (memberships d) =
      filter (\<lambda>m. userId = m_UserID m \<and> m_LeagueID m = L) (memberships d)"
    by (rule filter_cong) auto
  ultimately show ?thesis by (simp only:)
qed

lemma sum_concat_concat:
  fixes g :: "'b \<Rightarrow> int list"
  shows "sum_list (concat (map g (concat (map f us)))) =
         sum_list (map (\<lambda>u. sum_list (concat (map g (f u)))) us)"
  by (induction us) simp_all

lemma same_user:
  assumes "distinct (map u_UserID us)" and "u \<in> set us" and "u0 \<in> set us"
  shows "group_key u = group_key u0 \<longleftrightarrow> u_UserID u = u_UserID u0"
proof
  assume "group_key u = group_key u0"
  then show "u_UserID u = u_UserID u0" by (simp add: group_key_def)
next
  assume e: "u_UserID u = u_UserID u0"
  from assms(1) have "inj_on u_UserID (set us)" by (simp add: distinct_map)
  with e assms(2,3) have "u = u0" by (auto dest: inj_onD)
  then show "group_key u = group_key u0" by simp
qed

lemma key_total:
  assumes "distinct (map u_UserID (users d))" and "u0 \<in> set (users d)"
  shows "sum_list [p_PointsEarned p. (u, m, Some p) \<leftarrow> leaderboard_join L d,
                   group_key u = group_key u0] =
         int (length (filter (\<lambda>m. u_UserID u0 = m_UserID m \<and> m_LeagueID m = L) (memberships d))) *
         league_points (u_UserID u0) L d"
proof -
  let ?F = "\<lambda>u. int (length (filter (\<lambda>m. u_UserID u = m_UserID m \<and> m_LeagueID m = L) (memberships d))) *
         league_points (u_UserID u) L d"
  let ?g = "\<lambda>x :: user_row \<times> membership_row \<times> pick_row option.
      case x of (u, m, None) \<Rightarrow> []
       | (u, m, Some p) \<Rightarrow> if group_key u = group_key u0 then [p_PointsEarned p] else []"
  let ?f = "\<lambda>u. concat (map (\<lambda>m.
        if u_UserID u = m_UserID m \<and> m_LeagueID m = L
        then map (\<lambda>p. (u, m, p))
               (case filter (\<lambda>p. u_UserID u = p_UserID p \<and> p_LeagueID p = L) (picks d) of
                  [] \<Rightarrow> [None] | ps \<Rightarrow> map Some ps)
        else []) (memberships d))"
  have "sum_list [p_PointsEarned p. (u, m, Some p) \<leftarrow> leaderboard_join L d,
                   group_key u = group_key u0] =
        sum_list (concat (map ?g (concat (map ?f (users d)))))"
    unfolding join_alt ..
  also have "\<dots> = sum_list (map (\<lambda>u. sum_list (concat (map ?g (?f u)))) (users d))"
    by (rule sum_concat_concat)
  also have "\<dots> = sum_list (map (\<lambda>u. if group_key u = group_key u0 then ?F u else 0) (users d))"
    unfolding user_total ..
  also have "\<dots> = ?F u0"
    by (rule sum_select[OF assms(1) assms(2)]) (rule same_user[OF assms(1) _ assms(2)])
  finally show ?thesis .
qed

lemma group_rows:
  assumes du: "distinct (map u_UserID (users d))" and mu: "membership_unique d"
    and r: "r \<in> set (leaderboard_groups L d)"
  shows "\<exists>u\<in>set (users d). is_member (u_UserID u) L d \<and>
           lb_UserID r = u_UserID u \<and> lb_Username r = u_Username u \<and> lb_Email r = u_Email u \<and>
           lb_TotalPoints r = league_points (u_UserID u) L d"
proof -
  have "set (leaderboard_groups L d) =
      (\<lambda>k. \<lparr>lb_UserID = fst k, lb_Username = fst (snd k), lb_Email = snd (snd k),
                  lb_TotalPoints =
                    sum_list [p_PointsEarned p. (u, m, Some p) \<leftarrow> leaderboard_join L d,
                              group_key u = k]\<rparr>) `
        set (map (\<lambda>(u, m, p). group_key u) (leaderboard_join L d))"
    unfolding leaderboard_groups_def Let_def by (simp only: set_map set_remdups)
  with r obtain k where k: "k \<in> set (map (\<lambda>(u, m, p). group_key u) (leaderboard_join L d))"
    and rk: "r = \<lparr>lb_UserID = fst k, lb_Username = fst (snd k), lb_Email = snd (snd k),
                  lb_TotalPoints =
                    sum_list [p_PointsEarned p. (u, m, Some p) \<leftarrow> leaderboard_join L d,
                              group_key u = k]\<rparr>"
    by blast
  from k obtain u where u: "u \<in> set (users d)" "is_member (u_UserID u) L d" "k = group_key u"
    unfolding join_keys by blast
  have "lb_TotalPoints r = sum_list [p_PointsEarned p. (u', m, Some p) \<leftarrow> leaderboard_join L d,
                              group_key u' = group_key u]"
    unfolding rk u(3) by simp
  also have "\<dots> = int (length (filter (\<lambda>m. u_UserID u = m_UserID m \<and> m_LeagueID m = L) (memberships d))) *
         league_points (u_UserID u) L d"
    by (rule key_total[OF du u(1)])
  also have "\<dots> = league_points (u_UserID u) L d"
    unfolding member_count[OF mu u(2)] by simp
  finally have t: "lb_TotalPoints r = league_points (u_UserID u) L d" .
  have "lb_UserID r = u_UserID u \<and> lb_Username r = u_Username u \<and> lb_Email r = u_Email u"
    unfolding rk u(3) by (simp add: group_key_def)
  with t u(1,2) show ?thesis by blast
qed

lemma group_ids:
  "lb_UserID ` set (leaderboard_groups L d) =
     {userId \<in> set (map u_UserID (users d)). is_member userId L d}"
proof -
  have "lb_UserID ` set (leaderboard_groups L d) =
      fst ` set (map (\<lambda>(u, m, p). group_key u) (leaderboard_join L d))"
    unfolding leaderboard_groups_def Let_def by (simp add: image_image)
  also have "\<dots> = fst ` group_key ` {u \<in> set (users d). is_member (u_UserID u) L d}"
    unfolding join_keys ..
  also have "\<dots> = {userId \<in> set (map u_UserID (users d)). is_member userId L d}"
    by (auto simp: group_key_def image_image)
  finally show ?thesis .
qed

lemma group_distinct:
  assumes du: "distinct (map u_UserID (users d))"
  shows "distinct (map lb_UserID (leaderboard_groups L d))"
proof -
  let ?keys = "remdups (map (\<lambda>(u, m, p). group_key u) (leaderboard_join L d))"
  have m: "map lb_UserID (leaderboard_groups L d) = map fst ?keys"
    unfolding leaderboard_groups_def Let_def by simp
  have "inj_on fst (set ?keys)"
  proof (rule inj_onI)
    fix a b assume a: "a \<in> set ?keys" and b: "b \<in> set ?keys" and e: "fst a = fst b"
    from a obtain u where u: "u \<in> set (users d)" "a = group_key u"
      using join_keys[of L d] by auto
    from b obtain v where v: "v \<in> set (users d)" "b = group_key v"
      using join_keys[of L d] by auto
    from e u(2) v(2) have "u_UserID u = u_UserID v" by (simp add: group_key_def)
    with same_user[OF du u(1) v(1)] u(2) v(2) show "a = b" by simp
  qed
  then show ?thesis unfolding m by (simp add: distinct_map)
qed

lemma order_key:
  "((- ta, na) \<le> (- tb, nb)) = (tb < ta \<or> (ta = tb \<and> na \<le> nb))"
  for ta tb :: int and na nb :: string
  by (auto simp: less_eq_prod_def)

text \<open>
  C3. With distinct user ids and at most one membership per user and league, the
  leaderboard of a league has exactly one row for every user who has a membership in it,
  and no other row; a row carries the user's name and email, and its total is the sum of
  \<^verbatim>\<open>PointsEarned\<close> over the user's picks in the league, which is 0 for a member without
  picks. The rows are in descending order of the total, rows with equal totals in
  ascending order of the user name.
\<close>

theorem C3_leaderboard:
  assumes "leagueId \<noteq> []"
    and "distinct (map u_UserID (users d))" and "membership_unique d"
    and "leaderboard d leagueId = Success rows"
  shows "distinct (map lb_UserID rows)
     \<and> set (map lb_UserID rows) =
         {userId \<in> set (map u_UserID (users d)). is_member userId leagueId d}
     \<and> (\<forall>r\<in>set rows.
           lb_TotalPoints r = league_points (lb_UserID r) leagueId d \<and>
           (\<exists>u\<in>set (users d). u_UserID u = lb_UserID r \<and> u_Username u = lb_Username r \<and>
              u_Email u = lb_Email r))
     \<and> sorted_wrt (\<lambda>a b. lb_TotalPoints b < lb_TotalPoints a \<or>
                          (lb_TotalPoints a = lb_TotalPoints b \<and> lb_Username a \<le> lb_Username b))
          rows"
proof -
  let ?key = "\<lambda>r. (- lb_TotalPoints r, lb_Username r)"
  let ?groups = "leaderboard_groups leagueId d"
  have rows: "rows = sort_key ?key ?groups"
    using assms(1,4) by (simp add: leaderboard_def)
  have st: "set rows = set ?groups" unfolding rows by simp
  have "distinct ?groups"
    using group_distinct[OF assms(2), of leagueId] by (simp add: distinct_map)
  then have "distinct rows" unfolding rows by simp
  moreover have "inj_on lb_UserID (set rows)"
    unfolding st using group_distinct[OF assms(2), of leagueId] by (simp add: distinct_map)
  ultimately have A: "distinct (map lb_UserID rows)" by (simp add: distinct_map)
  have B: "set (map lb_UserID rows) =
         {userId \<in> set (map u_UserID (users d)). is_member userId leagueId d}"
    using group_ids[of leagueId d] st by simp
  have C: "\<forall>r\<in>set rows.
           lb_TotalPoints r = league_points (lb_UserID r) leagueId d \<and>
           (\<exists>u\<in>set (users d). u_UserID u = lb_UserID r \<and> u_Username u = lb_Username r \<and>
              u_Email u = lb_Email r)"
  proof
    fix r assume "r \<in> set rows"
    then have "r \<in> set ?groups" by (simp add: st)
    from group_rows[OF assms(2,3) this] obtain u where
      "u \<in> set (users d)" "lb_UserID r = u_UserID u" "lb_Username r = u_Username u"
      "lb_Email r = u_Email u" "lb_TotalPoints r = league_points (u_UserID u) leagueId d"
      by blast
    then show "lb_TotalPoints r = league_points (lb_UserID r) leagueId d \<and>
           (\<exists>u\<in>set (users d). u_UserID u = lb_UserID r \<and> u_Username u = lb_Username r \<and>
              u_Email u = lb_Email r)"
      by auto
  qed
  have "sorted (map ?key rows)" unfolding rows by (rule sorted_sort_key)
  then have "sorted_wrt (\<lambda>a b. ?key a \<le> ?key b) rows" by (simp add: sorted_map)
  then have D: "sorted_wrt (\<lambda>a b. lb_TotalPoints b < lb_TotalPoints a \<or>
                          (lb_TotalPoints a = lb_TotalPoints b \<and> lb_Username a \<le> lb_Username b))
          rows"
    unfolding order_key .
  from A B C D show ?thesis by blast
qed

lemma ex_board_eval: "leaderboard ex_db ''1'' = Success ex_board"
  by code_simp

theorem C3_leaderboard_witness:
  "''1'' \<noteq> [] \<and> distinct (map u_UserID (users ex_db)) \<and> membership_unique ex_db \<and>
   leaderboard ex_db ''1'' = Success ex_board \<and>
   map lb_UserID ex_board = [''1'', ''2'', ''3''] \<and>
   map lb_TotalPoints ex_board = [7, 3, 0] \<and>
   map (\<lambda>u. league_points u ''1'' ex_db) [''1'', ''2'', ''3''] = [7, 3, 0] \<and>
   filter (\<lambda>p. p_UserID p = ''3'') (picks ex_db) = [] \<and>
   is_member ''3'' ''1'' ex_db \<and>
   sorted_wrt (\<lambda>a b. lb_TotalPoints b < lb_TotalPoints a \<or>
                    (lb_TotalPoints a = lb_TotalPoints b \<and> lb_Username a \<le> lb_Username b))
      ex_board"
proof -
  have n: "''1'' \<noteq> []" by simp
  have du: "distinct (map u_UserID (users ex_db))" by code_simp
  have mu: "membership_unique ex_db" by code_simp
  note inst = C3_leaderboard [OF n du mu ex_board_eval]
  then have srt: "sorted_wrt (\<lambda>a b. lb_TotalPoints b < lb_TotalPoints a \<or>
                    (lb_TotalPoints a = lb_TotalPoints b \<and> lb_Username a \<le> lb_Username b))
      ex_board" by blast
  have v: "map lb_UserID ex_board = [''1'', ''2'', ''3''] \<and>
   map lb_TotalPoints ex_board = [7, 3, 0]" by (simp add: ex_board_def)
  have p: "map (\<lambda>u. league_points u ''1'' ex_db) [''1'', ''2'', ''3''] = [7, 3, 0]" by code_simp
  have c: "filter (\<lambda>p. p_UserID p = ''3'') (picks ex_db) = []" by code_simp
  have m: "is_member ''3'' ''1'' ex_db" unfolding is_member_def Bex_set[symmetric] by code_simp
  from n du mu ex_board_eval v p c m srt show ?thesis by simp
qed

section \<open>League references and the deletion of a league; null entries in a submission\<close>

lemma save_loop_references:
  assumes "enforces_league_key rejects"
  shows "save_loop rejects u l e items d s er = (ex, d', s', er') \<Longrightarrow>
    list_all (\<lambda>p. p_LeagueID p \<in> set (map l_LeagueID (leagues d))) (picks d) \<Longrightarrow>
    list_all (\<lambda>p. p_LeagueID p \<in> set (map l_LeagueID (leagues d))) (picks d')"
proof (induction items arbitrary: d s er)
  case Nil
  then show ?case by simp
next
  case (Cons a items)
  show ?case
  proof (cases "get_prop a ''fighterId''")
    case (Inl x)
    with Cons.prems show ?thesis by simp
  next
    case (Inr v)
    show ?thesis
    proof (cases "truthy v")
      case False
      with Inr Cons.prems(1) have "save_loop rejects u l e items d s er = (ex, d', s', er')" by simp
      from Cons.IH[OF this Cons.prems(2)] show ?thesis .
    next
      case True
      let ?row = "new_pick d u l e (trim (js_String v))"
      show ?thesis
      proof (cases "rejects d ?row")
        case True
        with Inr \<open>truthy v\<close> Cons.prems(1)
        have "save_loop rejects u l e items d s (Suc er) = (ex, d', s', er')"
          by (simp add: insert_pick_def)
        from Cons.IH[OF this Cons.prems(2)] show ?thesis .
      next
        case False
        let ?d1 = "d\<lparr>picks := picks d @ [?row], next_pick_id := Suc (next_pick_id d)\<rparr>"
        from False assms have "p_LeagueID ?row \<in> set (map l_LeagueID (leagues d))"
          unfolding enforces_league_key_def by blast
        with Cons.prems(2)
        have ok: "list_all (\<lambda>p. p_LeagueID p \<in> set (map l_LeagueID (leagues ?d1))) (picks ?d1)"
          by simp
        from False Inr \<open>truthy v\<close> Cons.prems(1)
        have "save_loop rejects u l e items ?d1 (Suc s) er = (ex, d', s', er')"
          by (simp add: insert_pick_def Let_def)
        from Cons.IH[OF this ok] show ?thesis by simp
      qed
    qed
  qed
qed

lemma save_picks_picks:
  "snd (save_picks rejects d body) = d \<or>
   (\<exists>u l e items ex s er.
      snd (save_picks rejects d body) = delete_picks u l e d \<or>
      save_loop rejects u l e items (delete_picks u l e d) 0 0
        = (ex, snd (save_picks rejects d body), s, er))"
proof (cases "\<not> truthy (sp_userId body) \<or> \<not> truthy (sp_leagueId body) \<or>
         \<not> truthy (sp_eventId body) \<or> \<not> truthy (sp_picks body)")
  case True
  then show ?thesis by (auto simp: save_picks_def)
next
  case False
  let ?u = "js_String (sp_userId body)" and ?l = "js_String (sp_leagueId body)"
    and ?e = "js_String (sp_eventId body)"
  let ?d1 = "delete_picks ?u ?l ?e d"
  show ?thesis
  proof (cases "js_iter (sp_picks body)")
    case (Inl ex)
    with False have "snd (save_picks rejects d body) = ?d1"
      by (simp add: save_picks_def Let_def)
    then show ?thesis by blast
  next
    case (Inr items)
    obtain ex d2 s er where L: "save_loop rejects ?u ?l ?e items ?d1 0 0 = (ex, d2, s, er)"
      by (metis prod_cases4)
    from False Inr L have "snd (save_picks rejects d body) = d2"
      by (auto simp: save_picks_def Let_def split: option.splits)
    with L show ?thesis by blast
  qed
qed

lemma save_picks_references:
  assumes "enforces_league_key rejects" and "league_references_exist d"
  shows "league_references_exist (snd (save_picks rejects d body))"
proof -
  let ?d' = "snd (save_picks rejects d body)"
  have fr: "leagues ?d' = leagues d" "memberships ?d' = memberships d"
    using save_picks_frame[of rejects d body] by simp_all
  have del: "list_all (\<lambda>p. p_LeagueID p \<in> set (map l_LeagueID (leagues (delete_picks u l e d))))
      (picks (delete_picks u l e d))" for u l e
    using assms(2) by (simp add: league_references_exist_def delete_picks_def list_all_iff)
  have lg: "leagues (delete_picks u l e d) = leagues d" for u l e
    by (simp add: delete_picks_def)
  have "list_all (\<lambda>p. p_LeagueID p \<in> set (map l_LeagueID (leagues d))) (picks ?d')"
  proof -
    from save_picks_picks[of rejects d body] consider
        (same) "?d' = d"
      | (deleted) u l e where "?d' = delete_picks u l e d"
      | (looped) u l e items ex s er where
          "save_loop rejects u l e items (delete_picks u l e d) 0 0 = (ex, ?d', s, er)"
      by blast
    then show ?thesis
    proof cases
      case same
      with assms(2) show ?thesis by (simp add: league_references_exist_def)
    next
      case deleted
      with del[of u l e] lg[of u l e] show ?thesis by simp
    next
      case looped
      from save_loop_references[OF assms(1) looped del] lg[of u l e] show ?thesis by simp
    qed
  qed
  with assms(2) fr show ?thesis by (simp add: league_references_exist_def)
qed

lemma register_references:
  "league_references_exist d \<Longrightarrow> league_references_exist (snd (register env d body))"
proof -
  assume a: "league_references_exist d"
  have "picks (snd (register env d body)) = picks d"
    by (auto simp: register_def Let_def register_failure_def split: sum.splits option.splits)
  with a register_frame[of env d body] show ?thesis
    by (simp add: league_references_exist_def)
qed

lemma delete_league_cases:
  "snd (delete_league d leagueId) = d \<or>
   ((\<forall>m\<in>set (memberships d). m_LeagueID m \<noteq> leagueId) \<and>
    (\<forall>p\<in>set (picks d). p_LeagueID p \<noteq> leagueId) \<and>
    snd (delete_league d leagueId) =
      d\<lparr>leagues := filter (\<lambda>l. l_LeagueID l \<noteq> leagueId) (leagues d)\<rparr>)"
proof -
  have pos: "(0 < length (filter P xs)) = (\<exists>x\<in>set xs. P x)" for P :: "'a \<Rightarrow> bool" and xs
    by (simp add: filter_empty_conv)
  show ?thesis unfolding delete_league_def pos Let_def by auto
qed

lemma delete_league_references:
  assumes "league_references_exist d"
  shows "league_references_exist (snd (delete_league d leagueId))"
proof -
  from delete_league_cases[of d leagueId] show ?thesis
  proof
    assume "snd (delete_league d leagueId) = d"
    with assms show ?thesis by simp
  next
    assume h: "(\<forall>m\<in>set (memberships d). m_LeagueID m \<noteq> leagueId) \<and>
      (\<forall>p\<in>set (picks d). p_LeagueID p \<noteq> leagueId) \<and>
      snd (delete_league d leagueId) =
        d\<lparr>leagues := filter (\<lambda>l. l_LeagueID l \<noteq> leagueId) (leagues d)\<rparr>"
    then have e: "snd (delete_league d leagueId) =
        d\<lparr>leagues := filter (\<lambda>l. l_LeagueID l \<noteq> leagueId) (leagues d)\<rparr>" by blast
    show ?thesis
      using assms h unfolding e league_references_exist_def
      by (fastforce simp: list_all_iff image_iff)
  qed
qed

lemma join_league_references:
  assumes "league_references_exist d"
  shows "league_references_exist (snd (join_league env d body))"
proof -
  from join_league_cases[of env d body] show ?thesis
  proof
    assume "snd (join_league env d body) = d"
    with assms show ?thesis by simp
  next
    assume "\<exists>league others.
      filter (\<lambda>l. l_LeagueCode l = bind env (jl_leagueCode body)) (leagues d) = league # others \<and>
      (\<forall>m\<in>set (memberships d).
         \<not> (m_UserID m = bind env (jl_userId body) \<and> m_LeagueID m = l_LeagueID league)) \<and>
      snd (join_league env d body) =
        d\<lparr>memberships := memberships d @
            [\<lparr>m_UserID = bind env (jl_userId body), m_LeagueID = l_LeagueID league,
              m_Role = ''Member''\<rparr>]\<rparr>"
    then obtain league others where
      f: "filter (\<lambda>l. l_LeagueCode l = bind env (jl_leagueCode body)) (leagues d) = league # others"
      and r: "snd (join_league env d body) =
        d\<lparr>memberships := memberships d @
            [\<lparr>m_UserID = bind env (jl_userId body), m_LeagueID = l_LeagueID league,
              m_Role = ''Member''\<rparr>]\<rparr>"
      by blast
    from f have "league \<in> set (filter (\<lambda>l. l_LeagueCode l = bind env (jl_leagueCode body)) (leagues d))"
      by simp
    then have lg: "league \<in> set (leagues d)" by simp
    show ?thesis
      using assms lg unfolding r league_references_exist_def by (auto simp: list_all_iff)
  qed
qed

lemma create_league_references:
  assumes "league_references_exist d"
  shows "league_references_exist (snd (create_league env d body))"
proof -
  define row where "row = \<lparr>l_LeagueID = dec (next_league_id d), l_Name = bind env (cl_name body),
                   l_OwnerID = bind env (cl_ownerID body),
                   l_ScoringRules = (if truthy (cl_scoringRules body)
                                     then Some (bind env (cl_scoringRules body)) else None),
                   l_LeagueCode = bind env (js_or (cl_leagueCode body) (Str (random_code env)))\<rparr>"
  have k: "l_LeagueID row = dec (next_league_id d)" by (simp add: row_def)
  from create_league_cases[OF row_def] consider
      (same) "snd (create_league env d body) = d"
    | (league) "snd (create_league env d body) =
         d\<lparr>leagues := leagues d @ [row], next_league_id := Suc (next_league_id d)\<rparr>"
    | (both) "snd (create_league env d body) =
         d\<lparr>leagues := leagues d @ [row], next_league_id := Suc (next_league_id d),
           memberships := memberships d @
             [\<lparr>m_UserID = bind env (cl_ownerID body), m_LeagueID = dec (next_league_id d),
               m_Role = ''Owner''\<rparr>]\<rparr>"
    by blast
  then show ?thesis
  proof cases
    case same
    with assms show ?thesis by simp
  next
    case league
    show ?thesis using assms unfolding league league_references_exist_def
      by (auto simp: list_all_iff)
  next
    case both
    show ?thesis using assms k unfolding both league_references_exist_def
      by (auto simp: list_all_iff)
  qed
qed

lemma exec_references:
  assumes "enforces_league_key (pick_rejected env)" and "league_references_exist d"
  shows "league_references_exist (exec env rq d)"
proof (cases rq)
  case (Register body)
  with register_references[OF assms(2)] show ?thesis by simp
next
  case (CreateLeague body)
  with create_league_references[OF assms(2)] show ?thesis by simp
next
  case (DeleteLeague leagueId)
  with delete_league_references[OF assms(2)] show ?thesis by simp
next
  case (JoinLeague body)
  with join_league_references[OF assms(2)] show ?thesis by simp
next
  case (SavePicks body)
  with save_picks_references[OF assms] show ?thesis by simp
qed

text \<open>
  The league references stay intact along every sequence of writing requests, provided the
  Pick table enforces its league key: \<^verbatim>\<open>save-picks\<close> itself does not look the league
  up, the other handlers insert references to leagues that exist and delete a league only
  when nothing references it.
\<close>

lemma run_references:
  "list_all (\<lambda>step. enforces_league_key (pick_rejected (fst step))) steps \<Longrightarrow>
   league_references_exist d \<Longrightarrow> league_references_exist (run steps d)"
proof (induction steps arbitrary: d)
  case Nil
  then show ?case by simp
next
  case (Cons a steps)
  obtain env rq where a: "a = (env, rq)" by (cases a) auto
  from Cons.prems(1) a have e: "enforces_league_key (pick_rejected env)"
    and r: "list_all (\<lambda>step. enforces_league_key (pick_rejected (fst step))) steps" by simp_all
  from Cons.IH[OF r exec_references[OF e Cons.prems(2)]] a show ?case by simp
qed



text \<open>
  C4. Reading \<^verbatim>\<open>pick.fighterId\<close> is outside the inner \<^verbatim>\<open>try\<close>: with the list
  fb, \<^verbatim>\<open>null\<close>, fc the TypeError on the second entry leaves the loop, the call answers
  500 with the exception's message, the pick for fb stays stored and the one for fc is
  never attempted, although two of the selections name a fighter and the database would
  have accepted both.
\<close>

theorem C4_null_entry_aborts_loop:
  "List.map_filter chosen (filter (\<lambda>sel. \<not> nullish sel) ex_selections_null) = [''fb'', ''fc''] \<and>
   save_picks never_rejects ex_db (ex_body (Arr ex_selections_null)) =
     (Failure 500 (Thrown PropertyOfNullish),
      ex_db\<lparr>picks := ex_kept_picks @ [ex_pick 5 ''fb''], next_pick_id := 6\<rparr>)"
  by code_simp

theorem C4_null_entry_aborts_loop_witness:
  "fst (save_picks never_rejects ex_db (ex_body (Arr ex_selections_null))) =
     Failure 500 (Thrown PropertyOfNullish) \<and>
   map p_FighterID (filter (in_scope ''1'' ''1'' ''e1'')
     (picks (snd (save_picks never_rejects ex_db (ex_body (Arr ex_selections_null)))))) = [''fb'']"
  using C4_null_entry_aborts_loop
  by (simp add: ex_kept_picks_def ex_pick_def in_scope_def)

text \<open>
  A list whose only entry is \<^verbatim>\<open>null\<close> has no entry that carries a fighter, and the
  call deletes the picks of the scope and then answers 500, not success.
\<close>

theorem C10_missing_fighter_id_skipped_counterexample:
  "[Null] \<noteq> [] \<and> List.map_filter chosen [Null] = [] \<and>
   filter (in_scope ''1'' ''1'' ''e1'') (picks ex_db) \<noteq> [] \<and>
   save_picks never_rejects ex_db (ex_body (Arr [Null])) =
     (Failure 500 (Thrown PropertyOfNullish), ex_db\<lparr>picks := ex_kept_picks\<rparr>)"
  by code_simp

end
